theory Spec2Isabelle
  imports Main "HOL-Library.Word"
begin

unbundle bit_operations_syntax

section \<open>The chat session of ai\_chat.cpp\<close>

text \<open>
  The file \<^verbatim>\<open>src/android/app/src/main/cpp/ai_chat.cpp\<close> keeps one process-wide chat
  session in static variables and drives the llama.cpp inference engine through its C
  interface. The session is a record here, every exported function takes the session
  and returns its result with the updated session. The engine is not part of the
  repository: what it answers (tokens of a text, status of a decode call, the sampled
  token, the bytes of a token) is a parameter of the model, a record of functions.
\<close>

subsection \<open>Constants\<close>

definition DEFAULT_CONTEXT_SIZE :: int where
  "DEFAULT_CONTEXT_SIZE = 256"

definition OVERFLOW_HEADROOM :: int where
  "OVERFLOW_HEADROOM = 4"

definition BATCH_SIZE :: nat where
  "BATCH_SIZE = 1"

subsection \<open>Data\<close>

type_synonym byte = "8 word"
type_synonym llama_token = int
type_synonym llama_pos = int

text \<open>One \<^verbatim>\<open>common_batch_add\<close>: the token, its position, and whether its logits are wanted.\<close>

type_synonym batch_entry = "llama_token \<times> llama_pos \<times> bool"

text \<open>One occupied slot of the engine's memory for sequence 0: a position and the token there.\<close>

type_synonym cell = "llama_pos \<times> llama_token"

datatype resource = Sampler | Batch | Context | Model

record engine =
  model_loads :: "string \<Rightarrow> bool"
  context_inits :: bool
  tokenize :: "string \<Rightarrow> llama_token list"
  decode_status :: "cell list \<Rightarrow> batch_entry list \<Rightarrow> int"
  sample_token :: "llama_token list \<Rightarrow> cell list \<Rightarrow> llama_token"
  is_eog :: "llama_token \<Rightarrow> bool"
  token_to_piece :: "llama_token \<Rightarrow> byte list"

text \<open>
  The static variables of the file, then what the engine holds behind the handles: the
  cells of the context's memory, the tokens the sampler has accepted, and two traces of
  calls into the engine (the batches handed to \<^verbatim>\<open>llama_decode\<close>, the resources handed
  to a free function). A handle is \<open>True\<close> when the pointer is not null.
\<close>

record session =
  g_model :: bool
  g_context :: bool
  g_batch :: "batch_entry list"
  g_sampler :: bool
  chat_msgs :: "(string \<times> string) list"
  system_prompt_position :: llama_pos
  current_position :: llama_pos
  stop_generation_position :: llama_pos
  cached_token_chars :: "byte list"
  assistant_ss :: "byte list"
  ret_buf :: "byte list"
  kv_cells :: "cell list"
  sampler_accepted :: "llama_token list"
  decode_log :: "batch_entry list list"
  free_log :: "resource list"

definition initial_session :: session where
  "initial_session =
     \<lparr> g_model = False, g_context = False, g_batch = [], g_sampler = False,
       chat_msgs = [], system_prompt_position = 0, current_position = 0,
       stop_generation_position = 0, cached_token_chars = [], assistant_ss = [],
       ret_buf = [], kv_cells = [], sampler_accepted = [], decode_log = [],
       free_log = [] \<rparr>"

subsection \<open>The engine's memory and decode calls\<close>

text \<open>
  \<^verbatim>\<open>llama_memory_seq_rm(mem, 0, p0, p1)\<close> removes the cells with a position in
  \<open>[p0, p1)\<close>; \<^verbatim>\<open>llama_memory_seq_add(mem, 0, p0, p1, delta)\<close> adds \<open>delta\<close> to the
  positions in \<open>[p0, p1)\<close> and drops a cell whose position becomes negative. In both, a
  negative \<open>p0\<close> stands for 0 and a negative \<open>p1\<close> for the largest position.
\<close>

definition llama_pos_max :: llama_pos where
  "llama_pos_max = 2147483647"

definition pos_in :: "llama_pos \<Rightarrow> llama_pos \<Rightarrow> llama_pos \<Rightarrow> bool" where
  "pos_in p0 p1 p =
     ((if p0 < 0 then 0 else p0) \<le> p \<and> p < (if p1 < 0 then llama_pos_max else p1))"

definition llama_memory_seq_rm :: "llama_pos \<Rightarrow> llama_pos \<Rightarrow> cell list \<Rightarrow> cell list" where
  "llama_memory_seq_rm p0 p1 cells = filter (\<lambda>c. \<not> pos_in p0 p1 (fst c)) cells"

definition llama_memory_seq_add ::
  "llama_pos \<Rightarrow> llama_pos \<Rightarrow> int \<Rightarrow> cell list \<Rightarrow> cell list" where
  "llama_memory_seq_add p0 p1 delta cells =
     concat (map (\<lambda>c. if pos_in p0 p1 (fst c)
                       then (if fst c + delta < 0 then [] else [(fst c + delta, snd c)])
                       else [c]) cells)"

definition llama_memory_clear :: "session \<Rightarrow> session" where
  "llama_memory_clear s = s\<lparr>kv_cells := []\<rparr>"

text \<open>
  \<^verbatim>\<open>llama_decode(context, batch)\<close>: the engine answers a status; on status 0 the tokens
  of the batch are resident at the positions the batch gives them.
\<close>

definition llama_decode :: "engine \<Rightarrow> session \<Rightarrow> int \<times> session" where
  "llama_decode eng s =
     (let rc = decode_status eng (kv_cells s) (g_batch s);
          s1 = s\<lparr>decode_log := decode_log s @ [g_batch s]\<rparr>
      in if rc = 0
         then (0, s1\<lparr>kv_cells := kv_cells s1 @ map (\<lambda>(t, p, l). (p, t)) (g_batch s1)\<rparr>)
         else (rc, s1))"

definition llama_sampler_sample :: "engine \<Rightarrow> session \<Rightarrow> llama_token" where
  "llama_sampler_sample eng s = sample_token eng (sampler_accepted s) (kv_cells s)"

definition llama_sampler_accept :: "llama_token \<Rightarrow> session \<Rightarrow> session" where
  "llama_sampler_accept t s = s\<lparr>sampler_accepted := sampler_accepted s @ [t]\<rparr>"

subsection \<open>Helper functions\<close>

definition reset_long_term_states :: "bool \<Rightarrow> session \<Rightarrow> session" where
  "reset_long_term_states clear_kv_cache s =
     (let s1 = s\<lparr>chat_msgs := [], system_prompt_position := 0, current_position := 0\<rparr>
      in if clear_kv_cache \<and> g_context s1 then llama_memory_clear s1 else s1)"

definition reset_short_term_states :: "session \<Rightarrow> session" where
  "reset_short_term_states s =
     s\<lparr>stop_generation_position := 0, cached_token_chars := [], assistant_ss := []\<rparr>"

text \<open>
  \<^verbatim>\<open>llama_pos\<close> and \<^verbatim>\<open>int\<close> are 32 bits wide. The positions count tokens of a
  window of 256 and stay far from the ends of that range; \<open>n_predict\<close> is the caller's,
  and the sum that sets the stop position wraps around with it.
\<close>

definition int32_wrap :: "int \<Rightarrow> int" where
  "int32_wrap x = (x + 2147483648) mod 4294967296 - 2147483648"

text \<open>The division of C++ on \<^verbatim>\<open>int\<close> truncates towards zero.\<close>

definition cpp_div :: "int \<Rightarrow> int \<Rightarrow> int" where
  "cpp_div a b = sgn a * sgn b * (\<bar>a\<bar> div \<bar>b\<bar>)"

definition n_discard :: "session \<Rightarrow> int" where
  "n_discard s = cpp_div (current_position s - system_prompt_position s) 2"

definition shift_context :: "session \<Rightarrow> session" where
  "shift_context s =
     (let nd = n_discard s;
          s1 = s\<lparr>kv_cells := llama_memory_seq_rm (system_prompt_position s)
                  (system_prompt_position s + nd) (kv_cells s)\<rparr>;
          s2 = s1\<lparr>kv_cells := llama_memory_seq_add (system_prompt_position s1 + nd)
                  (current_position s1) (- nd) (kv_cells s1)\<rparr>
      in s2\<lparr>current_position := current_position s2 - nd\<rparr>)"

text \<open>
  One round of the loop of \<^verbatim>\<open>decode_tokens_in_batches\<close>, for the batch that starts at
  index \<open>i\<close>: clear the batch, shift when the batch would reach the end of the window,
  add the tokens at the positions \<open>start_pos + i + j\<close>, decode.
\<close>

definition decode_batch ::
  "engine \<Rightarrow> llama_token list \<Rightarrow> llama_pos \<Rightarrow> bool \<Rightarrow> nat \<Rightarrow> session \<Rightarrow> int \<times> session" where
  "decode_batch eng tokens start_pos compute_last_logit i s =
     (let cur_batch_size = min (length tokens - i) BATCH_SIZE;
          s1 = s\<lparr>g_batch := []\<rparr>;
          s2 = (if start_pos + int i + int cur_batch_size
                     \<ge> DEFAULT_CONTEXT_SIZE - OVERFLOW_HEADROOM
                then shift_context s1 else s1);
          s3 = s2\<lparr>g_batch := g_batch s2 @
                 map (\<lambda>j. (tokens ! (i + j), start_pos + int i + int j,
                           compute_last_logit \<and> i + j = length tokens - 1))
                     [0..<cur_batch_size]\<rparr>
      in llama_decode eng s3)"

function decode_loop ::
  "engine \<Rightarrow> llama_token list \<Rightarrow> llama_pos \<Rightarrow> bool \<Rightarrow> nat \<Rightarrow> session \<Rightarrow> int \<times> session" where
  "decode_loop eng tokens start_pos compute_last_logit i s =
     (if i < length tokens
      then (case decode_batch eng tokens start_pos compute_last_logit i s of
              (decode_result, s') \<Rightarrow>
                if decode_result \<noteq> 0 then (1, s')
                else decode_loop eng tokens start_pos compute_last_logit (i + BATCH_SIZE) s')
      else (0, s))"
  by pat_completeness auto
termination
  by (relation "measure (\<lambda>(eng, tokens, start_pos, cll, i, s). length tokens - i)")
     (auto simp: BATCH_SIZE_def)

definition decode_tokens_in_batches ::
  "engine \<Rightarrow> llama_token list \<Rightarrow> llama_pos \<Rightarrow> bool \<Rightarrow> session \<Rightarrow> int \<times> session" where
  "decode_tokens_in_batches eng tokens start_pos compute_last_logit s =
     decode_loop eng tokens start_pos compute_last_logit 0 s"

text \<open>
  \<^verbatim>\<open>is_valid_utf8\<close> walks a C string: the bytes up to the first zero byte, and the byte
  read at the end of the list is that zero byte. \<open>utf8_scan k\<close> is the walk with \<open>k\<close>
  continuation bytes still owed by the inner loop; with none owed it is at the head of
  the outer loop. The argument \<open>None\<close> is the null pointer.
\<close>

fun utf8_scan :: "nat \<Rightarrow> byte list \<Rightarrow> bool" where
  "utf8_scan 0 [] = True"
| "utf8_scan (Suc k) [] = False"
| "utf8_scan 0 (b # bs) =
     (if b = 0 then True
      else if b AND 0x80 = 0x00 then utf8_scan 0 bs
      else if b AND 0xE0 = 0xC0 then utf8_scan 1 bs
      else if b AND 0xF0 = 0xE0 then utf8_scan 2 bs
      else if b AND 0xF8 = 0xF0 then utf8_scan 3 bs
      else False)"
| "utf8_scan (Suc k) (b # bs) =
     (if b AND 0xC0 \<noteq> 0x80 then False else utf8_scan k bs)"

definition is_valid_utf8 :: "byte list option \<Rightarrow> bool" where
  "is_valid_utf8 str = (case str of None \<Rightarrow> True | Some bytes \<Rightarrow> utf8_scan 0 bytes)"

subsection \<open>The exported functions\<close>

definition load_model_ffi :: "engine \<Rightarrow> string option \<Rightarrow> session \<Rightarrow> int \<times> session" where
  "load_model_ffi eng model_path s =
     (case model_path of
        None \<Rightarrow> (1, s)
      | Some path \<Rightarrow>
          (let s1 = s\<lparr>g_model := model_loads eng path\<rparr>
           in if \<not> g_model s1 then (1, s1) else (0, s1)))"

definition prepare_session_ffi :: "engine \<Rightarrow> session \<Rightarrow> int \<times> session" where
  "prepare_session_ffi eng s =
     (if \<not> g_model s then (1, s)
      else (let s1 = s\<lparr>g_context := context_inits eng, kv_cells := []\<rparr>
            in if \<not> g_context s1 then (1, s1)
               else (0, s1\<lparr>g_batch := [], g_sampler := True, sampler_accepted := []\<rparr>)))"

text \<open>
  The two prompts are wrapped in a fixed frame and handed to \<^verbatim>\<open>common_tokenize\<close>.
\<close>

definition system_prompt_tokens :: "engine \<Rightarrow> string \<Rightarrow> llama_token list" where
  "system_prompt_tokens eng system_prompt =
     tokenize eng (''System: '' @ system_prompt @ [CHR 0x0A])"

definition user_prompt_tokens :: "engine \<Rightarrow> string \<Rightarrow> llama_token list" where
  "user_prompt_tokens eng user_prompt =
     tokenize eng (''User: '' @ user_prompt @ [CHR 0x0A] @ ''Assistant: '')"

definition process_system_prompt_ffi ::
  "engine \<Rightarrow> string option \<Rightarrow> session \<Rightarrow> int \<times> session" where
  "process_system_prompt_ffi eng system_prompt s =
     (case system_prompt of
        None \<Rightarrow> (1, s)
      | Some prompt \<Rightarrow>
          if \<not> g_context s then (1, s)
          else
            (let s1 = reset_short_term_states (reset_long_term_states True s);
                 system_tokens = system_prompt_tokens eng prompt
             in if int (length system_tokens) > DEFAULT_CONTEXT_SIZE - OVERFLOW_HEADROOM
                then (1, s1)
                else
                  (case decode_tokens_in_batches eng system_tokens (current_position s1)
                          False s1 of
                     (rc, s2) \<Rightarrow>
                       if rc \<noteq> 0 then (2, s2)
                       else (0, s2\<lparr>current_position := int (length system_tokens),
                                   system_prompt_position := int (length system_tokens)\<rparr>))))"

definition process_user_prompt_ffi ::
  "engine \<Rightarrow> string option \<Rightarrow> int \<Rightarrow> session \<Rightarrow> int \<times> session" where
  "process_user_prompt_ffi eng user_prompt n_predict s =
     (case user_prompt of
        None \<Rightarrow> (1, s)
      | Some prompt \<Rightarrow>
          if \<not> g_context s then (1, s)
          else
            (let s1 = reset_short_term_states s;
                 user_tokens = user_prompt_tokens eng prompt;
                 user_prompt_size = int (length user_tokens);
                 max_batch_size = DEFAULT_CONTEXT_SIZE - OVERFLOW_HEADROOM;
                 user_tokens' = (if user_prompt_size > max_batch_size
                                 then take (nat max_batch_size) user_tokens
                                 else user_tokens)
             in case decode_tokens_in_batches eng user_tokens' (current_position s1)
                       True s1 of
                  (rc, s2) \<Rightarrow>
                    if rc \<noteq> 0 then (2, s2)
                    else
                      (let s3 = s2\<lparr>current_position := current_position s2 + user_prompt_size\<rparr>
                       in (0, s3\<lparr>stop_generation_position :=
                                    int32_wrap (current_position s3 + n_predict)\<rparr>))))"

text \<open>What a \<^verbatim>\<open>const char*\<close> into a string shows: the bytes before the first zero byte.\<close>

definition c_str :: "byte list \<Rightarrow> byte list" where
  "c_str bytes = takeWhile (\<lambda>b. b \<noteq> 0) bytes"

text \<open>
  The tail of \<^verbatim>\<open>generate_next_token_ffi\<close>: the bytes of the new token join
  \<^verbatim>\<open>cached_token_chars\<close>; once \<^verbatim>\<open>is_valid_utf8\<close> accepts it, the whole of it goes to
  \<^verbatim>\<open>ret_buf\<close> and to \<^verbatim>\<open>assistant_ss\<close>, and the result is \<^verbatim>\<open>ret_buf.c_str()\<close>;
  otherwise the result is the empty literal.
\<close>

definition utf8_assemble :: "byte list \<Rightarrow> session \<Rightarrow> byte list option \<times> session" where
  "utf8_assemble new_token_chars s =
     (let s1 = s\<lparr>cached_token_chars := cached_token_chars s @ new_token_chars\<rparr>;
          s2 = s1\<lparr>ret_buf := []\<rparr>
      in if is_valid_utf8 (Some (cached_token_chars s2))
         then (Some (c_str (cached_token_chars s2)),
               s2\<lparr>ret_buf := cached_token_chars s2,
                   assistant_ss := assistant_ss s2 @ cached_token_chars s2,
                   cached_token_chars := []\<rparr>)
         else (Some [], s2))"

text \<open>The result \<open>None\<close> is the null pointer, the end of the stream.\<close>

definition generate_next_token_ffi :: "engine \<Rightarrow> session \<Rightarrow> byte list option \<times> session" where
  "generate_next_token_ffi eng s =
     (if \<not> g_context s \<or> \<not> g_sampler s then (None, s)
      else
        (let s1 = (if current_position s \<ge> DEFAULT_CONTEXT_SIZE - OVERFLOW_HEADROOM
                   then shift_context s else s)
         in if current_position s1 \<ge> stop_generation_position s1 then (None, s1)
            else
              (let new_token_id = llama_sampler_sample eng s1;
                   s2 = llama_sampler_accept new_token_id s1;
                   s3 = s2\<lparr>g_batch := [(new_token_id, current_position s2, True)]\<rparr>
               in case llama_decode eng s3 of
                    (rc, s4) \<Rightarrow>
                      if rc \<noteq> 0 then (None, s4)
                      else
                        (let s5 = s4\<lparr>current_position := current_position s4 + 1\<rparr>
                         in if is_eog eng new_token_id then (None, s5)
                            else utf8_assemble (token_to_piece eng new_token_id) s5))))"

definition stop_generation_ffi :: "session \<Rightarrow> session" where
  "stop_generation_ffi s = reset_short_term_states s"

definition reset_conversation_ffi :: "session \<Rightarrow> session" where
  "reset_conversation_ffi s = reset_short_term_states (reset_long_term_states True s)"

text \<open>
  \<^verbatim>\<open>llama_free\<close> destroys the context and with it its memory; \<^verbatim>\<open>llama_sampler_free\<close>
  the sampler and what it has accepted. Every call of a free function is recorded.
\<close>

definition unload_ffi :: "session \<Rightarrow> session" where
  "unload_ffi s =
     (let s1 = reset_short_term_states (reset_long_term_states False s);
          s2 = (if g_sampler s1
                then s1\<lparr>free_log := free_log s1 @ [Sampler], sampler_accepted := [],
                        g_sampler := False\<rparr>
                else s1);
          s3 = (if g_context s2
                then s2\<lparr>free_log := free_log s2 @ [Batch, Context], kv_cells := [],
                        g_context := False\<rparr>
                else s2)
      in if g_model s3
         then s3\<lparr>free_log := free_log s3 @ [Model], g_model := False\<rparr>
         else s3)"

subsection \<open>Notions the properties are stated with\<close>

text \<open>The tokens handed to \<^verbatim>\<open>llama_decode\<close> so far, in the order of the calls.\<close>

definition decoded_tokens :: "session \<Rightarrow> llama_token list" where
  "decoded_tokens s = concat (map (map fst) (decode_log s))"

text \<open>
  A session is active once a system prompt has been processed with status 0, and stays
  so across user prompts and generation steps.
\<close>

inductive active :: "engine \<Rightarrow> session \<Rightarrow> bool" for eng :: engine where
  active_system:
    "process_system_prompt_ffi eng prompt s = (0, s') \<Longrightarrow> active eng s'"
| active_user:
    "active eng s \<Longrightarrow> active eng (snd (process_user_prompt_ffi eng prompt n_predict s))"
| active_generate:
    "active eng s \<Longrightarrow> active eng (snd (generate_next_token_ffi eng s))"

text \<open>
  The memory seen from a decode driver that starts at \<open>start_pos\<close>: the positions of
  the session are in order and not above \<open>start_pos\<close>, and every cell lies below
  \<open>current_position\<close> or at \<open>start_pos\<close> and above.
\<close>

definition cells_split :: "llama_pos \<Rightarrow> session \<Rightarrow> bool" where
  "cells_split start_pos s =
     (0 \<le> system_prompt_position s \<and> system_prompt_position s \<le> current_position s \<and>
      current_position s \<le> start_pos \<and>
      list_all (\<lambda>c. fst c < current_position s \<or> start_pos \<le> fst c) (kv_cells s))"

text \<open>The session after the shift \<^verbatim>\<open>generate_next_token_ffi\<close> starts with, when it is due.\<close>

definition shifted :: "session \<Rightarrow> session" where
  "shifted s = (if current_position s \<ge> DEFAULT_CONTEXT_SIZE - OVERFLOW_HEADROOM
                then shift_context s else s)"



text \<open>The results of \<open>n\<close> calls of \<^verbatim>\<open>generate_next_token_ffi\<close> in a row.\<close>

fun generate_calls :: "engine \<Rightarrow> nat \<Rightarrow> session \<Rightarrow> byte list option list \<times> session" where
  "generate_calls eng 0 s = ([], s)"
| "generate_calls eng (Suc n) s =
     (case generate_next_token_ffi eng s of
        (r, s') \<Rightarrow> (case generate_calls eng n s' of (rs, s'') \<Rightarrow> (r # rs, s'')))"

text \<open>
  UTF-8 as the specification words it: the high bits of a leading byte give the length
  of its sequence, 1 to 4, and every byte after it in the sequence is of the form
  \<open>10xxxxxx\<close>.
\<close>

definition utf8_lead_length :: "byte \<Rightarrow> nat" where
  "utf8_lead_length b =
     (if b AND 0x80 = 0x00 then 1
      else if b AND 0xE0 = 0xC0 then 2
      else if b AND 0xF0 = 0xE0 then 3
      else if b AND 0xF8 = 0xF0 then 4
      else 0)"




subsection \<open>Sessions and an engine for the examples\<close>

text \<open>
  An engine with one token per byte of the text, whose decode calls all succeed and
  whose sampler never draws the end-of-generation token 0.
\<close>

definition byte_engine :: engine where
  "byte_engine =
     \<lparr> model_loads = (\<lambda>path. path \<noteq> []), context_inits = True,
       tokenize = map of_char, decode_status = (\<lambda>cells batch. 0),
       sample_token = (\<lambda>accepted cells. 65 + int (length accepted)),
       is_eog = (\<lambda>t. t = 0), token_to_piece = (\<lambda>t. [word_of_int t]) \<rparr>"

text \<open>
  The same engine with other vocabularies: one whose every token is the two bytes C3 A9
  (the letter e with an acute accent), one whose first token, 65, is the byte C3 and
  whose other tokens are the byte A9, and one whose every token is the bytes 41 00 FF.
\<close>

definition whole_engine :: engine where
  "whole_engine = byte_engine\<lparr>token_to_piece := (\<lambda>t. [0xC3, 0xA9])\<rparr>"

definition split_engine :: engine where
  "split_engine = byte_engine\<lparr>token_to_piece := (\<lambda>t. if t = 65 then [0xC3] else [0xA9])\<rparr>"

definition nul_engine :: engine where
  "nul_engine = byte_engine\<lparr>token_to_piece := (\<lambda>t. [0x41, 0x00, 0xFF])\<rparr>"

definition ready_session :: session where
  "ready_session =
     snd (prepare_session_ffi byte_engine
            (snd (load_model_ffi byte_engine (Some ''model.gguf'') initial_session)))"

text \<open>A session in its second turn: two system tokens, five more of the conversation.\<close>

definition turn_session :: session where
  "turn_session =
     ready_session\<lparr>system_prompt_position := 2, current_position := 7,
       kv_cells := [(0, 10), (1, 11), (2, 12), (3, 13), (4, 14), (5, 15), (6, 16)]\<rparr>"

text \<open>A session whose window holds the system prompt and nothing else.\<close>

definition fresh_session :: session where
  "fresh_session =
     ready_session\<lparr>system_prompt_position := 2, current_position := 2,
       kv_cells := [(0, 10), (1, 11)]\<rparr>"

text \<open>The session after the system prompt \<open>x\<close>: ten tokens with the frame.\<close>

definition after_system :: session where
  "after_system = snd (process_system_prompt_ffi byte_engine (Some ''x'') ready_session)"

text \<open>
  Prompts of 222, 227 and 250 bytes: 240, 245 and 268 tokens as a user prompt, 259 as
  a system prompt for the last.
\<close>

definition prompt_222 :: string where
  "prompt_222 = replicate 222 (CHR ''a'')"

definition prompt_227 :: string where
  "prompt_227 = replicate 227 (CHR ''a'')"

definition prompt_250 :: string where
  "prompt_250 = replicate 250 (CHR ''a'')"

text \<open>
  The session after the system prompt \<open>x\<close> and a user prompt of 240 tokens with
  \<open>n_predict = 3\<close>.
\<close>

definition predict_3_session :: session where
  "predict_3_session =
     snd (process_user_prompt_ffi byte_engine (Some prompt_222) 3 after_system)"

text \<open>A session late in a conversation: two system tokens, 248 more, the window nearly full.\<close>

definition full_session :: session where
  "full_session =
     ready_session\<lparr>system_prompt_position := 2, current_position := 250,
       kv_cells := map (\<lambda>p. (int p, 7)) [0..<250]\<rparr>"

section \<open>The context shift\<close>

lemma cpp_div_2_nonneg: "0 \<le> a \<Longrightarrow> cpp_div a 2 = a div 2"
  by (cases "a = 0") (simp_all add: cpp_div_def)

lemma n_discard_bounds:
  assumes "system_prompt_position s \<le> current_position s"
  shows "n_discard s = (current_position s - system_prompt_position s) div 2"
    and "0 \<le> n_discard s"
    and "n_discard s \<le> current_position s - system_prompt_position s"
  using assms by (simp_all add: n_discard_def cpp_div_2_nonneg)

lemma n_discard_same:
  "current_position s = system_prompt_position s \<Longrightarrow> n_discard s = 0"
  by (simp add: n_discard_def cpp_div_def)

lemma shift_context_sys [simp]:
  "system_prompt_position (shift_context s) = system_prompt_position s"
  by (simp add: shift_context_def Let_def)

lemma shift_context_cp:
  "current_position (shift_context s) = current_position s - n_discard s"
  by (simp add: shift_context_def Let_def)

lemma pos_in_nonneg: "0 \<le> p0 \<Longrightarrow> 0 \<le> p1 \<Longrightarrow> pos_in p0 p1 p = (p0 \<le> p \<and> p < p1)"
  by (simp add: pos_in_def)

lemma seq_rm_empty_range: "0 \<le> p \<Longrightarrow> llama_memory_seq_rm p p cells = cells"
  by (simp add: llama_memory_seq_rm_def pos_in_def)

lemma seq_add_empty_range: "0 \<le> p \<Longrightarrow> llama_memory_seq_add p p d cells = cells"
  by (induction cells) (simp_all add: llama_memory_seq_add_def pos_in_def)

lemma seq_add_down:
  assumes "0 \<le> p0" "0 \<le> p1" "d \<le> p0"
  shows "llama_memory_seq_add p0 p1 (- d) cells =
         map (\<lambda>c. if p0 \<le> fst c \<and> fst c < p1 then (fst c - d, snd c) else c) cells"
  using assms by (induction cells) (auto simp: llama_memory_seq_add_def pos_in_nonneg)

lemma shift_context_noop:
  assumes "current_position s = system_prompt_position s" "0 \<le> system_prompt_position s"
  shows "shift_context s = s"
proof -
  have nd: "n_discard s = 0" using assms(1) by (rule n_discard_same)
  show ?thesis
    unfolding shift_context_def Let_def nd
    using assms by (simp add: seq_rm_empty_range seq_add_empty_range)
qed

text \<open>
  What a shift leaves in the memory: the cells outside
  \<open>[system_prompt_position, system_prompt_position + n_discard)\<close>, those from there up
  to \<open>current_position\<close> moved down by \<open>n_discard\<close>.
\<close>

lemma shift_context_cells:
  assumes "0 \<le> system_prompt_position s" "system_prompt_position s \<le> current_position s"
  shows "kv_cells (shift_context s) =
         map (\<lambda>c. if system_prompt_position s + n_discard s \<le> fst c \<and> fst c < current_position s
                  then (fst c - n_discard s, snd c) else c)
           (filter (\<lambda>c. \<not> (system_prompt_position s \<le> fst c \<and>
                             fst c < system_prompt_position s + n_discard s))
              (kv_cells s))"
proof -
  have nd: "0 \<le> n_discard s" using assms(2) by (rule n_discard_bounds(2))
  have "kv_cells (shift_context s) =
        llama_memory_seq_add (system_prompt_position s + n_discard s) (current_position s)
          (- n_discard s)
          (llama_memory_seq_rm (system_prompt_position s)
             (system_prompt_position s + n_discard s) (kv_cells s))"
    by (simp add: shift_context_def Let_def)
  also have "\<dots> = map (\<lambda>c. if system_prompt_position s + n_discard s \<le> fst c \<and> fst c < current_position s
                  then (fst c - n_discard s, snd c) else c)
          (llama_memory_seq_rm (system_prompt_position s)
             (system_prompt_position s + n_discard s) (kv_cells s))"
    using assms nd by (intro seq_add_down) simp_all
  also have "llama_memory_seq_rm (system_prompt_position s)
             (system_prompt_position s + n_discard s) (kv_cells s) =
           filter (\<lambda>c. \<not> (system_prompt_position s \<le> fst c \<and>
                             fst c < system_prompt_position s + n_discard s))
              (kv_cells s)"
    using assms nd by (simp add: llama_memory_seq_rm_def pos_in_nonneg)
  finally show ?thesis .
qed

lemma shift_context_below_sys:
  assumes "0 \<le> system_prompt_position s" "system_prompt_position s \<le> current_position s"
  shows "filter (\<lambda>c. fst c < system_prompt_position s) (kv_cells (shift_context s)) =
         filter (\<lambda>c. fst c < system_prompt_position s) (kv_cells s)"
proof -
  have nd: "0 \<le> n_discard s" using assms(2) by (rule n_discard_bounds(2))
  have "filter (\<lambda>c. fst c < q) (map (\<lambda>c. if q + d \<le> fst c \<and> fst c < cp
                  then (fst c - d, snd c) else c)
           (filter (\<lambda>c. \<not> (q \<le> fst c \<and> fst c < q + d)) cells)) =
        filter (\<lambda>c. fst c < q) cells" if "0 \<le> d" for q d cp :: int and cells :: "cell list"
    using that by (induction cells) auto
  from this [OF nd] show ?thesis
    by (simp add: shift_context_cells [OF assms])
qed

lemma ready_session_eq:
  "ready_session = initial_session\<lparr>g_model := True, g_context := True, g_sampler := True\<rparr>"
  by (simp add: ready_session_def prepare_session_ffi_def load_model_ffi_def
      byte_engine_def initial_session_def Let_def)

text \<open>
  Claim C4. In a session with \<open>system_prompt_position \<le> current_position\<close>, a shift
  leaves \<open>system_prompt_position\<close> as it is and lowers \<open>current_position\<close> by
  \<open>(current_position - system_prompt_position) div 2\<close>. When the two positions are equal,
  \<open>n_discard\<close> is 0 and \<open>current_position\<close> stays; the whole session, memory included,
  is then unchanged (the positions of a session are never negative, and a negative
  bound means something else to the engine's memory functions).
\<close>

theorem shift_context_halves:
  assumes "system_prompt_position s \<le> current_position s"
  shows "system_prompt_position (shift_context s) = system_prompt_position s \<and>
         current_position (shift_context s) =
           current_position s - (current_position s - system_prompt_position s) div 2 \<and>
         (current_position s = system_prompt_position s \<longrightarrow>
            n_discard s = 0 \<and> current_position (shift_context s) = current_position s \<and>
            (0 \<le> system_prompt_position s \<longrightarrow> shift_context s = s))"
proof (intro conjI impI)
  show "system_prompt_position (shift_context s) = system_prompt_position s" by simp
  show "current_position (shift_context s) =
           current_position s - (current_position s - system_prompt_position s) div 2"
    using assms by (simp add: shift_context_cp n_discard_bounds(1))
next
  assume eq: "current_position s = system_prompt_position s"
  show "n_discard s = 0" using eq by (rule n_discard_same)
  then show "current_position (shift_context s) = current_position s"
    by (simp add: shift_context_cp)
  assume "0 \<le> system_prompt_position s"
  with eq show "shift_context s = s" by (rule shift_context_noop)
qed

theorem shift_context_halves_witness:
  "system_prompt_position turn_session \<le> current_position turn_session \<and>
   system_prompt_position (shift_context turn_session) = 2 \<and>
   current_position turn_session = 7 \<and>
   current_position (shift_context turn_session) = 5 \<and>
   current_position fresh_session = system_prompt_position fresh_session \<and>
   0 \<le> system_prompt_position fresh_session \<and>
   n_discard fresh_session = 0 \<and>
   shift_context fresh_session = fresh_session"
  using shift_context_halves [of turn_session] shift_context_halves [of fresh_session]
  by (simp add: turn_session_def fresh_session_def)

text \<open>
  Claim C5. In a session with \<open>0 \<le> system_prompt_position \<le> current_position\<close>, the
  cells a shift takes out of the memory are those with a position in
  \<open>[system_prompt_position, system_prompt_position + n_discard)\<close> and no others: what is
  left is every other cell, renumbered when it lies above the range. The cells below
  \<open>system_prompt_position\<close>, the system prompt, are the same before and after.
\<close>

theorem shift_context_evicts_only_range:
  assumes "0 \<le> system_prompt_position s" "system_prompt_position s \<le> current_position s"
  shows "kv_cells (shift_context s) =
           map (\<lambda>c. if system_prompt_position s + n_discard s \<le> fst c \<and>
                        fst c < current_position s
                     then (fst c - n_discard s, snd c) else c)
             (filter (\<lambda>c. \<not> (system_prompt_position s \<le> fst c \<and>
                               fst c < system_prompt_position s + n_discard s))
                (kv_cells s)) \<and>
         filter (\<lambda>c. fst c < system_prompt_position s) (kv_cells (shift_context s)) =
           filter (\<lambda>c. fst c < system_prompt_position s) (kv_cells s)"
  using shift_context_cells [OF assms] shift_context_below_sys [OF assms] by simp

theorem shift_context_evicts_only_range_witness:
  "0 \<le> system_prompt_position turn_session \<and>
   system_prompt_position turn_session \<le> current_position turn_session \<and>
   n_discard turn_session = 2 \<and>
   kv_cells (shift_context turn_session) = [(0, 10), (1, 11), (2, 14), (3, 15), (4, 16)] \<and>
   filter (\<lambda>c. fst c < system_prompt_position turn_session)
     (kv_cells (shift_context turn_session)) = [(0, 10), (1, 11)]"
  using shift_context_evicts_only_range [of turn_session]
  by (simp add: turn_session_def n_discard_def cpp_div_def)

section \<open>Unloading\<close>

lemma unload_ffi_handles:
  "\<not> g_sampler (unload_ffi s)" "\<not> g_context (unload_ffi s)" "\<not> g_model (unload_ffi s)"
  by (simp_all add: unload_ffi_def reset_short_term_states_def reset_long_term_states_def Let_def)

lemma unload_ffi_positions:
  "current_position (unload_ffi s) = 0" "system_prompt_position (unload_ffi s) = 0"
  "stop_generation_position (unload_ffi s) = 0" "chat_msgs (unload_ffi s) = []"
  "cached_token_chars (unload_ffi s) = []" "assistant_ss (unload_ffi s) = []"
  by (simp_all add: unload_ffi_def reset_short_term_states_def reset_long_term_states_def Let_def)

lemma unload_ffi_unloaded:
  assumes "\<not> g_sampler t" "\<not> g_context t" "\<not> g_model t"
  shows "unload_ffi t =
         t\<lparr>chat_msgs := [], system_prompt_position := 0, current_position := 0,
           stop_generation_position := 0, cached_token_chars := [], assistant_ss := []\<rparr>"
  using assms
  by (simp add: unload_ffi_def reset_short_term_states_def reset_long_term_states_def Let_def)

lemma unload_ffi_twice: "unload_ffi (unload_ffi s) = unload_ffi s"
  by (simp add: unload_ffi_unloaded unload_ffi_handles unload_ffi_positions)

lemma unload_ffi_free_log:
  "free_log (unload_ffi s) =
     free_log s @ (if g_sampler s then [Sampler] else [])
       @ (if g_context s then [Batch, Context] else [])
       @ (if g_model s then [Model] else [])"
  by (simp add: unload_ffi_def reset_short_term_states_def reset_long_term_states_def Let_def)

text \<open>
  Claim C8. A second \<^verbatim>\<open>unload_ffi\<close> right after the first changes nothing: the session
  is the same, so is the trace of free calls. The first call frees the sampler when its
  handle is set, the batch and the context when the context's handle is set, the model
  when its handle is set, each once, and leaves the three handles null; from a prepared
  session the free calls are the sampler, the batch, the context, the model, in this
  order. The batch is a value, not a pointer: it is freed under the context's handle.
\<close>

theorem unload_ffi_idempotent:
  "unload_ffi (unload_ffi s) = unload_ffi s \<and>
   free_log (unload_ffi (unload_ffi s)) = free_log (unload_ffi s) \<and>
   \<not> g_sampler (unload_ffi s) \<and> \<not> g_context (unload_ffi s) \<and> \<not> g_model (unload_ffi s) \<and>
   free_log (unload_ffi s) =
     free_log s @ (if g_sampler s then [Sampler] else [])
       @ (if g_context s then [Batch, Context] else [])
       @ (if g_model s then [Model] else []) \<and>
   (g_sampler s \<and> g_context s \<and> g_model s \<longrightarrow>
      free_log (unload_ffi s) = free_log s @ [Sampler, Batch, Context, Model])"
proof (intro conjI impI)
  show twice: "unload_ffi (unload_ffi s) = unload_ffi s"
    by (rule unload_ffi_twice)
  then show "free_log (unload_ffi (unload_ffi s)) = free_log (unload_ffi s)"
    by simp
  show "\<not> g_sampler (unload_ffi s)" "\<not> g_context (unload_ffi s)" "\<not> g_model (unload_ffi s)"
    by (rule unload_ffi_handles)+
  show "free_log (unload_ffi s) =
     free_log s @ (if g_sampler s then [Sampler] else [])
       @ (if g_context s then [Batch, Context] else [])
       @ (if g_model s then [Model] else [])"
    by (rule unload_ffi_free_log)
next
  assume "g_sampler s \<and> g_context s \<and> g_model s"
  then show "free_log (unload_ffi s) = free_log s @ [Sampler, Batch, Context, Model]"
    by (simp add: unload_ffi_free_log)
qed

theorem unload_ffi_idempotent_witness:
  "g_sampler ready_session \<and> g_context ready_session \<and> g_model ready_session \<and>
   free_log (unload_ffi ready_session) = [Sampler, Batch, Context, Model] \<and>
   free_log (unload_ffi (unload_ffi ready_session)) = [Sampler, Batch, Context, Model]"
  using unload_ffi_idempotent [of ready_session]
  by (simp add: ready_session_eq initial_session_def)

section \<open>The batched decode driver\<close>

declare decode_loop.simps [simp del]

lemma shift_context_frame [simp]:
  "g_model (shift_context s) = g_model s"
  "g_context (shift_context s) = g_context s"
  "g_sampler (shift_context s) = g_sampler s"
  "g_batch (shift_context s) = g_batch s"
  "chat_msgs (shift_context s) = chat_msgs s"
  "stop_generation_position (shift_context s) = stop_generation_position s"
  "cached_token_chars (shift_context s) = cached_token_chars s"
  "assistant_ss (shift_context s) = assistant_ss s"
  "ret_buf (shift_context s) = ret_buf s"
  "sampler_accepted (shift_context s) = sampler_accepted s"
  "decode_log (shift_context s) = decode_log s"
  "free_log (shift_context s) = free_log s"
  by (simp_all add: shift_context_def Let_def)

lemma llama_decode_frame [simp]:
  "g_model (snd (llama_decode eng s)) = g_model s"
  "g_context (snd (llama_decode eng s)) = g_context s"
  "g_sampler (snd (llama_decode eng s)) = g_sampler s"
  "g_batch (snd (llama_decode eng s)) = g_batch s"
  "chat_msgs (snd (llama_decode eng s)) = chat_msgs s"
  "system_prompt_position (snd (llama_decode eng s)) = system_prompt_position s"
  "current_position (snd (llama_decode eng s)) = current_position s"
  "stop_generation_position (snd (llama_decode eng s)) = stop_generation_position s"
  "cached_token_chars (snd (llama_decode eng s)) = cached_token_chars s"
  "assistant_ss (snd (llama_decode eng s)) = assistant_ss s"
  "ret_buf (snd (llama_decode eng s)) = ret_buf s"
  "sampler_accepted (snd (llama_decode eng s)) = sampler_accepted s"
  "free_log (snd (llama_decode eng s)) = free_log s"
  "decode_log (snd (llama_decode eng s)) = decode_log s @ [g_batch s]"
  by (simp_all add: llama_decode_def Let_def)

lemma llama_decode_cells:
  "fst (llama_decode eng s) = 0 \<Longrightarrow>
   kv_cells (snd (llama_decode eng s)) = kv_cells s @ map (\<lambda>(t, p, l). (p, t)) (g_batch s)"
  "fst (llama_decode eng s) \<noteq> 0 \<Longrightarrow> kv_cells (snd (llama_decode eng s)) = kv_cells s"
  "fst (llama_decode eng s) = decode_status eng (kv_cells s) (g_batch s)"
  by (simp_all add: llama_decode_def Let_def split: if_splits)

text \<open>The session a round of the loop hands to the decode call.\<close>

lemma decode_batch_eq:
  assumes "i < length tokens"
  shows "decode_batch eng tokens start_pos cll i s =
         llama_decode eng
           ((if start_pos + int i + 1 \<ge> DEFAULT_CONTEXT_SIZE - OVERFLOW_HEADROOM
             then shift_context (s\<lparr>g_batch := []\<rparr>) else s\<lparr>g_batch := []\<rparr>)
            \<lparr>g_batch := [(tokens ! i, start_pos + int i, cll \<and> i = length tokens - 1)]\<rparr>)"
proof -
  have "min (length tokens - i) BATCH_SIZE = 1"
    using assms by (simp add: BATCH_SIZE_def)
  then show ?thesis
    by (simp add: decode_batch_def Let_def)
qed

lemma decode_batch_frame:
  assumes "i < length tokens"
  shows "g_model (snd (decode_batch eng tokens sp cll i s)) = g_model s"
  "g_context (snd (decode_batch eng tokens sp cll i s)) = g_context s"
  "g_sampler (snd (decode_batch eng tokens sp cll i s)) = g_sampler s"
  "chat_msgs (snd (decode_batch eng tokens sp cll i s)) = chat_msgs s"
  "system_prompt_position (snd (decode_batch eng tokens sp cll i s)) = system_prompt_position s"
  "stop_generation_position (snd (decode_batch eng tokens sp cll i s)) = stop_generation_position s"
  "cached_token_chars (snd (decode_batch eng tokens sp cll i s)) = cached_token_chars s"
  "assistant_ss (snd (decode_batch eng tokens sp cll i s)) = assistant_ss s"
  "ret_buf (snd (decode_batch eng tokens sp cll i s)) = ret_buf s"
  "sampler_accepted (snd (decode_batch eng tokens sp cll i s)) = sampler_accepted s"
  "free_log (snd (decode_batch eng tokens sp cll i s)) = free_log s"
  "decode_log (snd (decode_batch eng tokens sp cll i s)) =
     decode_log s @ [[(tokens ! i, sp + int i, cll \<and> i = length tokens - 1)]]"
  by (simp_all add: decode_batch_eq [OF assms])

lemma decode_batch_cp:
  assumes "i < length tokens"
  shows "current_position (snd (decode_batch eng tokens sp cll i s)) =
         (if sp + int i + 1 \<ge> DEFAULT_CONTEXT_SIZE - OVERFLOW_HEADROOM
          then current_position s - n_discard s else current_position s)"
  by (simp add: decode_batch_eq [OF assms] shift_context_cp n_discard_def)

text \<open>An invariant of the rounds is an invariant of the loop.\<close>

lemma decode_loop_inv:
  assumes "P s"
    and "\<And>i s. P s \<Longrightarrow> i < length tokens \<Longrightarrow> P (snd (decode_batch eng tokens sp cll i s))"
  shows "P (snd (decode_loop eng tokens sp cll i s))"
  using assms(1)
proof (induction "length tokens - i" arbitrary: i s rule: less_induct)
  case less
  show ?case
  proof (cases "i < length tokens")
    case False
    then show ?thesis using less.prems by (simp add: decode_loop.simps)
  next
    case True
    obtain rc s' where b: "decode_batch eng tokens sp cll i s = (rc, s')"
      by (cases "decode_batch eng tokens sp cll i s")
    have P': "P s'" using assms(2) [OF less.prems True] b by simp
    show ?thesis
    proof (cases "rc = 0")
      case rc: True
      have "length tokens - (i + BATCH_SIZE) < length tokens - i"
        using True by (simp add: BATCH_SIZE_def)
      then have "P (snd (decode_loop eng tokens sp cll (i + BATCH_SIZE) s'))"
        using P' by (rule less.hyps)
      then show ?thesis using True b rc
        by (simp add: decode_loop.simps [of eng tokens sp cll i s])
    next
      case False
      then show ?thesis using True b P'
        by (simp add: decode_loop.simps [of eng tokens sp cll i s])
    qed
  qed
qed

text \<open>The loop answers 0 or 1.\<close>

lemma decode_loop_status:
  "fst (decode_loop eng tokens sp cll i s) = 0 \<or> fst (decode_loop eng tokens sp cll i s) = 1"
proof (induction "length tokens - i" arbitrary: i s rule: less_induct)
  case less
  show ?case
  proof (cases "i < length tokens")
    case False
    then show ?thesis by (simp add: decode_loop.simps)
  next
    case True
    obtain rc s' where b: "decode_batch eng tokens sp cll i s = (rc, s')"
      by (cases "decode_batch eng tokens sp cll i s")
    have "length tokens - (i + BATCH_SIZE) < length tokens - i"
      using True by (simp add: BATCH_SIZE_def)
    from less.hyps [OF this, of s'] show ?thesis using True b
      by (simp add: decode_loop.simps [of eng tokens sp cll i s])
  qed
qed

text \<open>
  When the loop answers 0, every round's decode call did, and the calls were: one token
  a batch, the token of index \<open>k\<close> at position \<open>start_pos + k\<close>.
\<close>

lemma decode_loop_log:
  assumes "decode_loop eng tokens sp cll i s = (0, s')"
  shows "decode_log s' = decode_log s @
           map (\<lambda>k. [(tokens ! k, sp + int k, cll \<and> k = length tokens - 1)]) [i..<length tokens]"
  using assms
proof (induction "length tokens - i" arbitrary: i s rule: less_induct)
  case less
  show ?case
  proof (cases "i < length tokens")
    case False
    then show ?thesis using less.prems by (simp add: decode_loop.simps)
  next
    case True
    obtain rc s1 where b: "decode_batch eng tokens sp cll i s = (rc, s1)"
      by (cases "decode_batch eng tokens sp cll i s")
    have rc: "rc = 0" and rest: "decode_loop eng tokens sp cll (Suc i) s1 = (0, s')"
      using less.prems True b
      by (auto simp: decode_loop.simps [of eng tokens sp cll i s] BATCH_SIZE_def split: if_splits)
    have "length tokens - Suc i < length tokens - i" using True by simp
    from less.hyps [OF this rest]
    have "decode_log s' = decode_log s1 @
           map (\<lambda>k. [(tokens ! k, sp + int k, cll \<and> k = length tokens - 1)]) [Suc i..<length tokens]" .
    moreover have "decode_log s1 = decode_log s @ [[(tokens ! i, sp + int i, cll \<and> i = length tokens - 1)]]"
      using decode_batch_frame(12) [OF True, of eng sp cll s] b by simp
    ultimately show ?thesis using True by (simp add: upt_conv_Cons)
  qed
qed

lemma decode_loop_always_ok:
  assumes "\<And>cells batch. decode_status eng cells batch = 0"
  shows "fst (decode_loop eng tokens sp cll i s) = 0"
proof (induction "length tokens - i" arbitrary: i s rule: less_induct)
  case less
  show ?case
  proof (cases "i < length tokens")
    case False
    then show ?thesis by (simp add: decode_loop.simps)
  next
    case True
    obtain rc s1 where b: "decode_batch eng tokens sp cll i s = (rc, s1)"
      by (cases "decode_batch eng tokens sp cll i s")
    have "rc = 0"
      using b assms by (simp add: decode_batch_eq [OF True] llama_decode_def Let_def)
    moreover have "length tokens - (i + BATCH_SIZE) < length tokens - i"
      using True by (simp add: BATCH_SIZE_def)
    ultimately show ?thesis using less.hyps [of "i + BATCH_SIZE" s1] True b
      by (simp add: decode_loop.simps [of eng tokens sp cll i s])
  qed
qed

lemma decode_loop_frame:
  "g_model (snd (decode_loop eng tokens sp cll i s)) = g_model s"
  "g_context (snd (decode_loop eng tokens sp cll i s)) = g_context s"
  "g_sampler (snd (decode_loop eng tokens sp cll i s)) = g_sampler s"
  "chat_msgs (snd (decode_loop eng tokens sp cll i s)) = chat_msgs s"
  "system_prompt_position (snd (decode_loop eng tokens sp cll i s)) = system_prompt_position s"
  "stop_generation_position (snd (decode_loop eng tokens sp cll i s)) = stop_generation_position s"
  "cached_token_chars (snd (decode_loop eng tokens sp cll i s)) = cached_token_chars s"
  "assistant_ss (snd (decode_loop eng tokens sp cll i s)) = assistant_ss s"
  "ret_buf (snd (decode_loop eng tokens sp cll i s)) = ret_buf s"
  "sampler_accepted (snd (decode_loop eng tokens sp cll i s)) = sampler_accepted s"
  "free_log (snd (decode_loop eng tokens sp cll i s)) = free_log s"
  by (rule decode_loop_inv [where P = "\<lambda>t. g_model t = g_model s"], simp, simp add: decode_batch_frame)
     (rule decode_loop_inv [where P = "\<lambda>t. g_context t = g_context s"], simp, simp add: decode_batch_frame,
      rule decode_loop_inv [where P = "\<lambda>t. g_sampler t = g_sampler s"], simp, simp add: decode_batch_frame,
      rule decode_loop_inv [where P = "\<lambda>t. chat_msgs t = chat_msgs s"], simp, simp add: decode_batch_frame,
      rule decode_loop_inv [where P = "\<lambda>t. system_prompt_position t = system_prompt_position s"], simp, simp add: decode_batch_frame,
      rule decode_loop_inv [where P = "\<lambda>t. stop_generation_position t = stop_generation_position s"], simp, simp add: decode_batch_frame,
      rule decode_loop_inv [where P = "\<lambda>t. cached_token_chars t = cached_token_chars s"], simp, simp add: decode_batch_frame,
      rule decode_loop_inv [where P = "\<lambda>t. assistant_ss t = assistant_ss s"], simp, simp add: decode_batch_frame,
      rule decode_loop_inv [where P = "\<lambda>t. ret_buf t = ret_buf s"], simp, simp add: decode_batch_frame,
      rule decode_loop_inv [where P = "\<lambda>t. sampler_accepted t = sampler_accepted s"], simp, simp add: decode_batch_frame,
      rule decode_loop_inv [where P = "\<lambda>t. free_log t = free_log s"], simp, simp add: decode_batch_frame)

text \<open>The loop never raises \<open>current_position\<close> and never takes it below the system prompt.\<close>

lemma decode_loop_cp:
  assumes "system_prompt_position s \<le> current_position s"
  shows "system_prompt_position s \<le> current_position (snd (decode_loop eng tokens sp cll i s))"
    and "current_position (snd (decode_loop eng tokens sp cll i s)) \<le> current_position s"
proof -
  let ?P = "\<lambda>t::session. system_prompt_position t = system_prompt_position s \<and>
                 system_prompt_position s \<le> current_position t \<and>
                 current_position t \<le> current_position s"
  have "?P (snd (decode_loop eng tokens sp cll i s))"
  proof (rule decode_loop_inv [where P = ?P])
    show "?P s" using assms by simp
  next
    fix i and t :: session assume t: "?P t" and i: "i < length tokens"
    then have le: "system_prompt_position t \<le> current_position t" by simp
    show "?P (snd (decode_batch eng tokens sp cll i t))"
      using t n_discard_bounds(2,3) [OF le]
      by (simp add: decode_batch_frame [OF i] decode_batch_cp [OF i])
  qed
  then show "system_prompt_position s \<le> current_position (snd (decode_loop eng tokens sp cll i s))"
    and "current_position (snd (decode_loop eng tokens sp cll i s)) \<le> current_position s"
    by simp_all
qed

lemma shift_context_cells_length: "length (kv_cells (shift_context s)) \<le> length (kv_cells s)"
proof -
  have a: "length (llama_memory_seq_add p0 p1 d cells) \<le> length cells" for p0 p1 d cells
    by (induction cells) (simp_all add: llama_memory_seq_add_def)
  have r: "length (llama_memory_seq_rm p0 p1 cells) \<le> length cells" for p0 p1 cells
    by (simp add: llama_memory_seq_rm_def)
  show ?thesis
    unfolding shift_context_def Let_def
    by simp (rule order_trans [OF a r])
qed

lemma decode_batch_cells_length:
  assumes "i < length tokens"
  shows "length (kv_cells (snd (decode_batch eng tokens sp cll i s))) \<le> Suc (length (kv_cells s))"
proof -
  let ?t = "(if sp + int i + 1 \<ge> DEFAULT_CONTEXT_SIZE - OVERFLOW_HEADROOM
             then shift_context (s\<lparr>g_batch := []\<rparr>) else s\<lparr>g_batch := []\<rparr>)
            \<lparr>g_batch := [(tokens ! i, sp + int i, cll \<and> i = length tokens - 1)]\<rparr>"
  have "length (kv_cells ?t) \<le> length (kv_cells s)"
    using shift_context_cells_length [of "s\<lparr>g_batch := []\<rparr>"] by simp
  moreover have "length (kv_cells (snd (llama_decode eng ?t))) \<le> Suc (length (kv_cells ?t))"
    by (simp add: llama_decode_def Let_def)
  ultimately show ?thesis by (simp add: decode_batch_eq [OF assms])
qed

lemma decode_loop_cells_length:
  "length (kv_cells (snd (decode_loop eng tokens sp cll i s))) \<le>
     length (kv_cells s) + (length tokens - i)"
proof (induction "length tokens - i" arbitrary: i s rule: less_induct)
  case less
  show ?case
  proof (cases "i < length tokens")
    case False
    then show ?thesis by (simp add: decode_loop.simps)
  next
    case True
    obtain rc s1 where b: "decode_batch eng tokens sp cll i s = (rc, s1)"
      by (cases "decode_batch eng tokens sp cll i s")
    have s1: "length (kv_cells s1) \<le> Suc (length (kv_cells s))"
      using decode_batch_cells_length [OF True, of eng sp cll s] b by simp
    have "length tokens - Suc i < length tokens - i" using True by simp
    from less.hyps [OF this, of s1]
    have IH: "length (kv_cells (snd (decode_loop eng tokens sp cll (Suc i) s1))) \<le>
                length (kv_cells s1) + (length tokens - Suc i)" .
    have eq: "snd (decode_loop eng tokens sp cll i s) =
                (if rc \<noteq> 0 then s1 else snd (decode_loop eng tokens sp cll (Suc i) s1))"
      using True b by (simp add: decode_loop.simps [of eng tokens sp cll i s] BATCH_SIZE_def)
    show ?thesis
    proof (cases "rc = 0")
      case True
      then show ?thesis using eq IH s1 \<open>i < length tokens\<close> by simp
    next
      case False
      then show ?thesis using eq s1 \<open>i < length tokens\<close> by simp
    qed
  qed
qed

text \<open>
  With every cell below \<open>current_position\<close> or at \<open>start_pos\<close> and above, a shift
  moves the first kind down with \<open>current_position\<close> and leaves the second kind where
  it is.
\<close>

lemma cells_split_shift:
  assumes "cells_split sp s"
  shows "cells_split sp (shift_context s)"
proof -
  have sys: "0 \<le> system_prompt_position s" "system_prompt_position s \<le> current_position s"
    and sp: "current_position s \<le> sp"
    and cells: "\<forall>c\<in>set (kv_cells s). fst c < current_position s \<or> sp \<le> fst c"
    using assms by (simp_all add: cells_split_def list_all_iff)
  note nd = n_discard_bounds(2,3) [OF sys(2)]
  have "\<forall>c\<in>set (kv_cells (shift_context s)). fst c < current_position s - n_discard s \<or> sp \<le> fst c"
    unfolding shift_context_cells [OF sys]
    using cells nd sp by auto
  then show ?thesis
    using sys sp nd by (simp add: cells_split_def list_all_iff shift_context_cp)
qed

lemma cells_split_batch:
  assumes "cells_split sp s" "i < length tokens"
  shows "cells_split sp (snd (decode_batch eng tokens sp cll i s))"
proof -
  let ?s0 = "s\<lparr>g_batch := []\<rparr>"
  let ?s2 = "if sp + int i + 1 \<ge> DEFAULT_CONTEXT_SIZE - OVERFLOW_HEADROOM
             then shift_context ?s0 else ?s0"
  let ?s3 = "?s2\<lparr>g_batch := [(tokens ! i, sp + int i, cll \<and> i = length tokens - 1)]\<rparr>"
  have "cells_split sp ?s0" using assms(1) by (simp add: cells_split_def)
  then have "cells_split sp ?s2" by (simp add: cells_split_shift)
  then have s3: "cells_split sp ?s3" by (simp add: cells_split_def)
  have "cells_split sp (snd (llama_decode eng ?s3))"
    using s3 by (auto simp: cells_split_def llama_decode_def Let_def)
  then show ?thesis by (simp add: decode_batch_eq [OF assms(2)])
qed

lemma cells_split_loop:
  assumes "cells_split sp s"
  shows "cells_split sp (snd (decode_loop eng tokens sp cll i s))"
  by (rule decode_loop_inv [where P = "cells_split sp"]) (simp_all add: assms cells_split_batch)


lemma cells_split_shift_keeps:
  assumes "cells_split sp s" "c \<in> set (kv_cells s)" "sp \<le> fst c"
  shows "c \<in> set (kv_cells (shift_context s))"
proof -
  have sys: "0 \<le> system_prompt_position s" "system_prompt_position s \<le> current_position s"
    and sp: "current_position s \<le> sp"
    using assms(1) by (simp_all add: cells_split_def)
  note nd = n_discard_bounds(2,3) [OF sys(2)]
  have "c \<in> set (filter (\<lambda>c. \<not> (system_prompt_position s \<le> fst c \<and>
                             fst c < system_prompt_position s + n_discard s)) (kv_cells s))"
    using assms(2,3) sp nd by simp
  moreover have "c = (\<lambda>c. if system_prompt_position s + n_discard s \<le> fst c \<and> fst c < current_position s
                  then (fst c - n_discard s, snd c) else c) c"
    using assms(3) sp by simp
  ultimately have "c \<in> (\<lambda>c. if system_prompt_position s + n_discard s \<le> fst c \<and> fst c < current_position s
                  then (fst c - n_discard s, snd c) else c) `
          set (filter (\<lambda>c. \<not> (system_prompt_position s \<le> fst c \<and>
                             fst c < system_prompt_position s + n_discard s)) (kv_cells s))"
    by (intro image_eqI [where x = c])
  then show ?thesis
    unfolding shift_context_cells [OF sys] set_map .
qed

lemma cells_split_batch_keeps:
  assumes "cells_split sp s" "c \<in> set (kv_cells s)" "sp \<le> fst c" "i < length tokens"
  shows "c \<in> set (kv_cells (snd (decode_batch eng tokens sp cll i s)))"
proof -
  let ?s0 = "s\<lparr>g_batch := []\<rparr>"
  let ?s2 = "if sp + int i + 1 \<ge> DEFAULT_CONTEXT_SIZE - OVERFLOW_HEADROOM
             then shift_context ?s0 else ?s0"
  let ?s3 = "?s2\<lparr>g_batch := [(tokens ! i, sp + int i, cll \<and> i = length tokens - 1)]\<rparr>"
  have "cells_split sp ?s0" "c \<in> set (kv_cells ?s0)"
    using assms(1,2) by (simp_all add: cells_split_def)
  then have "c \<in> set (kv_cells ?s2)"
    using cells_split_shift_keeps [OF _ _ assms(3), of ?s0] by simp
  then have "c \<in> set (kv_cells ?s3)" by simp
  then have "c \<in> set (kv_cells (snd (llama_decode eng ?s3)))"
    by (simp add: llama_decode_def Let_def)
  then show ?thesis by (simp add: decode_batch_eq [OF assms(4)])
qed

lemma cells_split_loop_keeps:
  assumes "cells_split sp s" "c \<in> set (kv_cells s)" "sp \<le> fst c"
  shows "c \<in> set (kv_cells (snd (decode_loop eng tokens sp cll i s)))"
proof -
  have "cells_split sp (snd (decode_loop eng tokens sp cll i s)) \<and>
        c \<in> set (kv_cells (snd (decode_loop eng tokens sp cll i s)))"
    by (rule decode_loop_inv [where P = "\<lambda>t. cells_split sp t \<and> c \<in> set (kv_cells t)"])
       (simp_all add: assms cells_split_batch cells_split_batch_keeps)
  then show ?thesis ..
qed

text \<open>After a loop that answered 0 the token of every round is resident where the round put it.\<close>

lemma decode_loop_new_cells:
  assumes "decode_loop eng tokens sp cll i s = (0, s')" "cells_split sp s"
    "i \<le> k" "k < length tokens"
  shows "(sp + int k, tokens ! k) \<in> set (kv_cells s')"
  using assms
proof (induction "length tokens - i" arbitrary: i s rule: less_induct)
  case less
  have True: "i < length tokens" using less.prems(3,4) by simp
  obtain rc s1 where b: "decode_batch eng tokens sp cll i s = (rc, s1)"
    by (cases "decode_batch eng tokens sp cll i s")
  have rc: "rc = 0" and rest: "decode_loop eng tokens sp cll (Suc i) s1 = (0, s')"
    using less.prems(1) True b
    by (auto simp: decode_loop.simps [of eng tokens sp cll i s] BATCH_SIZE_def split: if_splits)
  have split1: "cells_split sp s1"
    using cells_split_batch [OF less.prems(2) True, where eng = eng and cll = cll] b by simp
  show ?case
  proof (cases "k = i")
    case False
    then have "Suc i \<le> k" using less.prems(3) by simp
    moreover have "length tokens - Suc i < length tokens - i" using True by simp
    ultimately show ?thesis using less.hyps rest split1 less.prems(4) by blast
  next
    case k: True
    have "fst (decode_batch eng tokens sp cll i s) = 0" using b rc by simp
    then have "(sp + int i, tokens ! i) \<in> set (kv_cells (snd (decode_batch eng tokens sp cll i s)))"
      unfolding decode_batch_eq [OF True] by (simp add: llama_decode_cells(1))
    then have "(sp + int i, tokens ! i) \<in> set (kv_cells s1)" using b by simp
    from cells_split_loop_keeps [OF split1 this, where eng = eng and tokens = tokens and cll = cll and i = "Suc i"] rest
    show ?thesis using k by simp
  qed
qed

section \<open>The prompts\<close>

lemma window_size [simp]: "DEFAULT_CONTEXT_SIZE - OVERFLOW_HEADROOM = 252"
  by (simp add: DEFAULT_CONTEXT_SIZE_def OVERFLOW_HEADROOM_def)

lemma reset_short_term_states_frame [simp]:
  "g_model (reset_short_term_states s) = g_model s"
  "g_context (reset_short_term_states s) = g_context s"
  "g_sampler (reset_short_term_states s) = g_sampler s"
  "system_prompt_position (reset_short_term_states s) = system_prompt_position s"
  "current_position (reset_short_term_states s) = current_position s"
  "stop_generation_position (reset_short_term_states s) = 0"
  "cached_token_chars (reset_short_term_states s) = []"
  "assistant_ss (reset_short_term_states s) = []"
  "kv_cells (reset_short_term_states s) = kv_cells s"
  "sampler_accepted (reset_short_term_states s) = sampler_accepted s"
  "decode_log (reset_short_term_states s) = decode_log s"
  "free_log (reset_short_term_states s) = free_log s"
  by (simp_all add: reset_short_term_states_def)

lemma reset_long_term_states_frame [simp]:
  "g_model (reset_long_term_states c s) = g_model s"
  "g_context (reset_long_term_states c s) = g_context s"
  "g_sampler (reset_long_term_states c s) = g_sampler s"
  "system_prompt_position (reset_long_term_states c s) = 0"
  "current_position (reset_long_term_states c s) = 0"
  "stop_generation_position (reset_long_term_states c s) = stop_generation_position s"
  "kv_cells (reset_long_term_states c s) = (if c \<and> g_context s then [] else kv_cells s)"
  "sampler_accepted (reset_long_term_states c s) = sampler_accepted s"
  "decode_log (reset_long_term_states c s) = decode_log s"
  "free_log (reset_long_term_states c s) = free_log s"
  by (simp_all add: reset_long_term_states_def llama_memory_clear_def Let_def)

text \<open>The tokens \<^verbatim>\<open>process_user_prompt_ffi\<close> hands to the decode driver.\<close>

lemma process_user_prompt_ffi_unfold:
  assumes "g_context s"
  shows "process_user_prompt_ffi eng (Some prompt) n_predict s =
         (case decode_tokens_in_batches eng
                 (if 252 < int (length (user_prompt_tokens eng prompt))
                  then take 252 (user_prompt_tokens eng prompt)
                  else user_prompt_tokens eng prompt)
                 (current_position s) True (reset_short_term_states s) of
            (rc, t) \<Rightarrow>
              if rc \<noteq> 0 then (2, t)
              else (0, t\<lparr>current_position :=
                            current_position t + int (length (user_prompt_tokens eng prompt)),
                          stop_generation_position :=
                            int32_wrap (current_position t
                              + int (length (user_prompt_tokens eng prompt)) + n_predict)\<rparr>))"
  using assms by (simp add: process_user_prompt_ffi_def Let_def split: prod.splits)

lemma process_system_prompt_ffi_unfold:
  assumes "g_context s" "int (length (system_prompt_tokens eng prompt)) \<le> 252"
  shows "process_system_prompt_ffi eng (Some prompt) s =
         (case decode_tokens_in_batches eng (system_prompt_tokens eng prompt) 0 False
                 (reset_conversation_ffi s) of
            (rc, t) \<Rightarrow>
              if rc \<noteq> 0 then (2, t)
              else (0, t\<lparr>current_position := int (length (system_prompt_tokens eng prompt)),
                          system_prompt_position :=
                            int (length (system_prompt_tokens eng prompt))\<rparr>))"
  using assms by (simp add: process_system_prompt_ffi_def reset_conversation_ffi_def Let_def split: prod.splits)

lemma process_system_prompt_ffi_rejects:
  assumes "g_context s" "252 < int (length (system_prompt_tokens eng prompt))"
  shows "process_system_prompt_ffi eng (Some prompt) s = (1, reset_conversation_ffi s)"
  using assms by (simp add: process_system_prompt_ffi_def reset_conversation_ffi_def Let_def)

lemma decode_tokens_in_batches_decoded:
  assumes "decode_tokens_in_batches eng tokens sp cll s = (0, s')"
  shows "decoded_tokens s' = decoded_tokens s @ tokens"
proof -
  have "decode_log s' = decode_log s @
           map (\<lambda>k. [(tokens ! k, sp + int k, cll \<and> k = length tokens - 1)]) [0..<length tokens]"
    using assms unfolding decode_tokens_in_batches_def by (rule decode_loop_log)
  moreover have "concat (map (map fst)
           (map (\<lambda>k. [(tokens ! k, sp + int k, cll \<and> k = length tokens - 1)]) [0..<length tokens]))
         = map (\<lambda>k. tokens ! k) [0..<length tokens]"
    by (simp add: comp_def)
  ultimately show ?thesis
    by (simp add: decoded_tokens_def map_nth)
qed


lemma decode_tokens_in_batches_always_ok:
  assumes "\<And>cells batch. decode_status eng cells batch = 0"
  shows "fst (decode_tokens_in_batches eng tokens sp cll s) = 0"
  unfolding decode_tokens_in_batches_def using assms by (rule decode_loop_always_ok)

lemma process_user_prompt_ffi_ok:
  assumes "process_user_prompt_ffi eng (Some prompt) n_predict s = (0, s')"
  obtains t where "g_context s"
    and "decode_tokens_in_batches eng
           (if 252 < int (length (user_prompt_tokens eng prompt))
            then take 252 (user_prompt_tokens eng prompt)
            else user_prompt_tokens eng prompt)
           (current_position s) True (reset_short_term_states s) = (0, t)"
    and "s' = t\<lparr>current_position :=
                   current_position t + int (length (user_prompt_tokens eng prompt)),
                 stop_generation_position :=
                   int32_wrap (current_position t
                     + int (length (user_prompt_tokens eng prompt)) + n_predict)\<rparr>"
proof -
  have ctx: "g_context s"
    using assms by (auto simp: process_user_prompt_ffi_def split: if_splits)
  show thesis
    using assms that [OF ctx] unfolding process_user_prompt_ffi_unfold [OF ctx]
    by (auto split: prod.splits if_splits)
qed

lemma process_user_prompt_ffi_status:
  assumes "g_context s"
  shows "fst (process_user_prompt_ffi eng (Some prompt) n_predict s) =
         (if fst (decode_tokens_in_batches eng
                 (if 252 < int (length (user_prompt_tokens eng prompt))
                  then take 252 (user_prompt_tokens eng prompt)
                  else user_prompt_tokens eng prompt)
                 (current_position s) True (reset_short_term_states s)) = 0 then 0 else 2)"
  unfolding process_user_prompt_ffi_unfold [OF assms] by (simp split: prod.splits)

lemma process_user_prompt_ffi_decoded:
  assumes "process_user_prompt_ffi eng (Some prompt) n_predict s = (0, s')"
    "252 < int (length (user_prompt_tokens eng prompt))"
  shows "decoded_tokens s' = decoded_tokens s @ take 252 (user_prompt_tokens eng prompt)"
proof -
  from assms(1) obtain t where
    t: "decode_tokens_in_batches eng
           (if 252 < int (length (user_prompt_tokens eng prompt))
            then take 252 (user_prompt_tokens eng prompt)
            else user_prompt_tokens eng prompt)
           (current_position s) True (reset_short_term_states s) = (0, t)"
    and s': "s' = t\<lparr>current_position :=
                   current_position t + int (length (user_prompt_tokens eng prompt)),
                 stop_generation_position :=
                   int32_wrap (current_position t
                     + int (length (user_prompt_tokens eng prompt)) + n_predict)\<rparr>"
    by (rule process_user_prompt_ffi_ok)
  have "decoded_tokens t = decoded_tokens (reset_short_term_states s) @
          take 252 (user_prompt_tokens eng prompt)"
    using decode_tokens_in_batches_decoded [OF t] assms(2) by simp
  then show ?thesis
    by (simp add: s' decoded_tokens_def)
qed

text \<open>
  Claim C1, as the code has it. A user prompt of more than
  \<open>DEFAULT_CONTEXT_SIZE - OVERFLOW_HEADROOM = 252\<close> tokens is not rejected: the status is
  0, or 2 when a decode call fails, and 0 with an engine whose decode calls all succeed.
  With status 0 the tokens handed to the engine in this call are exactly 252, and they
  are the first 252 tokens of the prompt: the excess is dropped from the end.
\<close>

theorem process_user_prompt_ffi_truncates_tail:
  assumes "g_context s"
    and "DEFAULT_CONTEXT_SIZE - OVERFLOW_HEADROOM < int (length (user_prompt_tokens eng prompt))"
  shows "(fst (process_user_prompt_ffi eng (Some prompt) n_predict s) = 0 \<or>
          fst (process_user_prompt_ffi eng (Some prompt) n_predict s) = 2) \<and>
         ((\<forall>cells batch. decode_status eng cells batch = 0) \<longrightarrow>
            fst (process_user_prompt_ffi eng (Some prompt) n_predict s) = 0) \<and>
         (fst (process_user_prompt_ffi eng (Some prompt) n_predict s) = 0 \<longrightarrow>
            decoded_tokens (snd (process_user_prompt_ffi eng (Some prompt) n_predict s)) =
              decoded_tokens s @ take 252 (user_prompt_tokens eng prompt) \<and>
            length (take 252 (user_prompt_tokens eng prompt)) = 252)"
proof (intro conjI impI)
  show "fst (process_user_prompt_ffi eng (Some prompt) n_predict s) = 0 \<or>
        fst (process_user_prompt_ffi eng (Some prompt) n_predict s) = 2"
    by (simp add: process_user_prompt_ffi_status [OF assms(1)])
next
  assume "\<forall>cells batch. decode_status eng cells batch = 0"
  then show "fst (process_user_prompt_ffi eng (Some prompt) n_predict s) = 0"
    by (simp add: process_user_prompt_ffi_status [OF assms(1)] decode_tokens_in_batches_always_ok)
next
  assume "fst (process_user_prompt_ffi eng (Some prompt) n_predict s) = 0"
  then have "process_user_prompt_ffi eng (Some prompt) n_predict s =
             (0, snd (process_user_prompt_ffi eng (Some prompt) n_predict s))"
    by (metis prod.collapse)
  then show "decoded_tokens (snd (process_user_prompt_ffi eng (Some prompt) n_predict s)) =
              decoded_tokens s @ take 252 (user_prompt_tokens eng prompt)"
    using assms(2) by (intro process_user_prompt_ffi_decoded) simp_all
  show "length (take 252 (user_prompt_tokens eng prompt)) = 252"
    using assms(2) by simp
qed

text \<open>The inputs of the examples.\<close>

lemma byte_engine_fields [simp]:
  "tokenize byte_engine = map of_char"
  "decode_status byte_engine = (\<lambda>cells batch. 0)"
  "sample_token byte_engine = (\<lambda>accepted cells. 65 + int (length accepted))"
  "is_eog byte_engine = (\<lambda>t. t = 0)"
  "token_to_piece byte_engine = (\<lambda>t. [word_of_int t])"
  by (simp_all add: byte_engine_def)

lemma ready_session_fields [simp]:
  "g_model ready_session" "g_context ready_session" "g_sampler ready_session"
  "system_prompt_position ready_session = 0" "current_position ready_session = 0"
  "stop_generation_position ready_session = 0" "cached_token_chars ready_session = []"
  "kv_cells ready_session = []" "sampler_accepted ready_session = []"
  "decode_log ready_session = []" "free_log ready_session = []"
  by (simp_all add: ready_session_eq initial_session_def)

lemma prompt_lengths [simp]:
  "length (system_prompt_tokens byte_engine ''x'') = 10"
  "length (user_prompt_tokens byte_engine prompt_222) = 240"
  "length (user_prompt_tokens byte_engine prompt_227) = 245"
  "length (user_prompt_tokens byte_engine prompt_250) = 268"
  "length (system_prompt_tokens byte_engine prompt_250) = 259"
  by (simp_all add: system_prompt_tokens_def user_prompt_tokens_def prompt_222_def
      prompt_227_def prompt_250_def)

lemma after_system_eq:
  "after_system =
     (snd (decode_tokens_in_batches byte_engine (system_prompt_tokens byte_engine ''x'') 0 False
             (reset_conversation_ffi ready_session)))
       \<lparr>current_position := 10, system_prompt_position := 10\<rparr>"
proof -
  have "fst (decode_tokens_in_batches byte_engine (system_prompt_tokens byte_engine ''x'') 0 False
             (reset_conversation_ffi ready_session)) = 0"
    by (rule decode_tokens_in_batches_always_ok) simp
  then show ?thesis
    unfolding after_system_def
    by (subst process_system_prompt_ffi_unfold) (auto split: prod.splits)
qed

lemma after_system_fields [simp]:
  "g_model after_system" "g_context after_system" "g_sampler after_system"
  "system_prompt_position after_system = 10" "current_position after_system = 10"
  "stop_generation_position after_system = 0" "cached_token_chars after_system = []"
  "sampler_accepted after_system = []"
  unfolding after_system_eq decode_tokens_in_batches_def
  by (simp_all add: decode_loop_frame reset_conversation_ffi_def)

theorem process_user_prompt_ffi_truncates_tail_witness:
  "g_context after_system \<and>
   DEFAULT_CONTEXT_SIZE - OVERFLOW_HEADROOM < int (length (user_prompt_tokens byte_engine prompt_250)) \<and>
   (\<forall>cells batch. decode_status byte_engine cells batch = 0) \<and>
   fst (process_user_prompt_ffi byte_engine (Some prompt_250) 5 after_system) = 0 \<and>
   decoded_tokens (snd (process_user_prompt_ffi byte_engine (Some prompt_250) 5 after_system)) =
     decoded_tokens after_system @ take 252 (user_prompt_tokens byte_engine prompt_250)"
  using process_user_prompt_ffi_truncates_tail [of after_system byte_engine prompt_250 5]
  by simp

text \<open>
  The claim as the specification has it fails: of the 268 tokens of this prompt the last
  252 are not what is decoded.
\<close>

theorem process_user_prompt_ffi_not_right_aligned:
  "length (user_prompt_tokens byte_engine prompt_250) = 268 \<and>
   fst (process_user_prompt_ffi byte_engine (Some prompt_250) 5 after_system) = 0 \<and>
   decoded_tokens (snd (process_user_prompt_ffi byte_engine (Some prompt_250) 5 after_system)) \<noteq>
     decoded_tokens after_system @ drop (268 - 252) (user_prompt_tokens byte_engine prompt_250)"
proof -
  have ok: "fst (process_user_prompt_ffi byte_engine (Some prompt_250) 5 after_system) = 0"
    by (simp add: process_user_prompt_ffi_status decode_tokens_in_batches_always_ok)
  then have "process_user_prompt_ffi byte_engine (Some prompt_250) 5 after_system =
             (0, snd (process_user_prompt_ffi byte_engine (Some prompt_250) 5 after_system))"
    by (metis prod.collapse)
  then have dec: "decoded_tokens (snd (process_user_prompt_ffi byte_engine (Some prompt_250) 5 after_system)) =
     decoded_tokens after_system @ take 252 (user_prompt_tokens byte_engine prompt_250)"
    by (rule process_user_prompt_ffi_decoded) simp
  have a: "take 252 (user_prompt_tokens byte_engine prompt_250) ! 0 = 85"
    by (simp add: user_prompt_tokens_def)
  have b: "drop (268 - 252) (user_prompt_tokens byte_engine prompt_250) ! 0 = 97"
    by (simp add: user_prompt_tokens_def prompt_250_def nth_append)
  have "take 252 (user_prompt_tokens byte_engine prompt_250) \<noteq>
        drop (268 - 252) (user_prompt_tokens byte_engine prompt_250)"
  proof
    assume "take 252 (user_prompt_tokens byte_engine prompt_250) =
            drop (268 - 252) (user_prompt_tokens byte_engine prompt_250)"
    with a b have "(85::int) = 97" by simp
    then show False by simp
  qed
  then show ?thesis using ok dec by simp
qed

text \<open>
  Claim C3, as the code has it. A system prompt of more than
  \<open>DEFAULT_CONTEXT_SIZE - OVERFLOW_HEADROOM = 252\<close> tokens is answered with status 1 and
  nothing is decoded, no part of the prompt either. The session is not left as it was:
  the conversation is reset before the length is looked at, so the session is the one
  \<^verbatim>\<open>reset_conversation_ffi\<close> gives, with \<open>current_position\<close> and
  \<open>system_prompt_position\<close> 0 and the memory empty; \<open>current_position\<close> is as before
  only when it was 0.
\<close>

theorem process_system_prompt_ffi_too_long:
  assumes "g_context s"
    and "DEFAULT_CONTEXT_SIZE - OVERFLOW_HEADROOM < int (length (system_prompt_tokens eng prompt))"
  shows "process_system_prompt_ffi eng (Some prompt) s = (1, reset_conversation_ffi s) \<and>
         decode_log (snd (process_system_prompt_ffi eng (Some prompt) s)) = decode_log s \<and>
         current_position (snd (process_system_prompt_ffi eng (Some prompt) s)) = 0 \<and>
         system_prompt_position (snd (process_system_prompt_ffi eng (Some prompt) s)) = 0 \<and>
         kv_cells (snd (process_system_prompt_ffi eng (Some prompt) s)) = [] \<and>
         (current_position (snd (process_system_prompt_ffi eng (Some prompt) s)) =
            current_position s \<longleftrightarrow> current_position s = 0)"
proof -
  have "process_system_prompt_ffi eng (Some prompt) s = (1, reset_conversation_ffi s)"
    using assms by (intro process_system_prompt_ffi_rejects) simp_all
  then show ?thesis
    using assms(1) by (auto simp: reset_conversation_ffi_def)
qed

theorem process_system_prompt_ffi_too_long_witness:
  "g_context after_system \<and>
   DEFAULT_CONTEXT_SIZE - OVERFLOW_HEADROOM < int (length (system_prompt_tokens byte_engine prompt_250)) \<and>
   fst (process_system_prompt_ffi byte_engine (Some prompt_250) after_system) = 1 \<and>
   decode_log (snd (process_system_prompt_ffi byte_engine (Some prompt_250) after_system)) =
     decode_log after_system \<and>
   kv_cells (snd (process_system_prompt_ffi byte_engine (Some prompt_250) after_system)) = []"
  using process_system_prompt_ffi_too_long [of after_system byte_engine prompt_250]
  by (simp add: reset_conversation_ffi_def)

text \<open>
  The claim as the specification has it fails: after a ten-token system prompt, a second
  system prompt of 259 tokens is rejected and \<open>current_position\<close> goes from 10 to 0.
\<close>

theorem process_system_prompt_ffi_resets_position:
  "fst (process_system_prompt_ffi byte_engine (Some prompt_250) after_system) = 1 \<and>
   current_position after_system = 10 \<and>
   current_position (snd (process_system_prompt_ffi byte_engine (Some prompt_250) after_system)) = 0"
  by (simp add: process_system_prompt_ffi_rejects reset_conversation_ffi_def)

text \<open>
  Claim C9. When a user prompt of more than 252 tokens is processed with status 0, 252
  batches are decoded, and \<open>current_position\<close> is the position the decode driver left
  plus the length of the whole prompt, not 252. So it ends above 252, between
  \<open>system_prompt_position\<close> plus the length and the old \<open>current_position\<close> plus the
  length, and at the latter when no history stood between the two positions. The memory
  gains at most 252 cells: when it held no more cells than \<open>system_prompt_position\<close>,
  \<open>current_position\<close> ends above the number of cells.
\<close>

theorem process_user_prompt_ffi_advances_untruncated:
  assumes "0 \<le> system_prompt_position s" "system_prompt_position s \<le> current_position s"
    and "DEFAULT_CONTEXT_SIZE - OVERFLOW_HEADROOM < int (length (user_prompt_tokens eng prompt))"
    and "process_user_prompt_ffi eng (Some prompt) n_predict s = (0, s')"
  shows "current_position s' =
           current_position (snd (decode_tokens_in_batches eng
               (take 252 (user_prompt_tokens eng prompt)) (current_position s) True
               (reset_short_term_states s)))
           + int (length (user_prompt_tokens eng prompt)) \<and>
         length (decode_log s') = length (decode_log s) + 252 \<and>
         DEFAULT_CONTEXT_SIZE - OVERFLOW_HEADROOM < current_position s' \<and>
         system_prompt_position s + int (length (user_prompt_tokens eng prompt))
           \<le> current_position s' \<and>
         current_position s' \<le> current_position s + int (length (user_prompt_tokens eng prompt)) \<and>
         (current_position s = system_prompt_position s \<longrightarrow>
            current_position s' =
              current_position s + int (length (user_prompt_tokens eng prompt))) \<and>
         length (kv_cells s') \<le> length (kv_cells s) + 252 \<and>
         (int (length (kv_cells s)) \<le> system_prompt_position s \<longrightarrow>
            int (length (kv_cells s')) < current_position s')"
proof -
  let ?toks = "user_prompt_tokens eng prompt"
  let ?s0 = "reset_short_term_states s"
  from assms(4) obtain t where
    t: "decode_tokens_in_batches eng
           (if 252 < int (length ?toks) then take 252 ?toks else ?toks)
           (current_position s) True ?s0 = (0, t)"
    and s': "s' = t\<lparr>current_position := current_position t + int (length ?toks),
                 stop_generation_position :=
                   int32_wrap (current_position t + int (length ?toks) + n_predict)\<rparr>"
    by (rule process_user_prompt_ffi_ok)
  have long: "252 < int (length ?toks)" using assms(3) by simp
  have t': "decode_loop eng (take 252 ?toks) (current_position s) True 0 ?s0 = (0, t)"
    using t long by (simp add: decode_tokens_in_batches_def)
  have t_eq: "t = snd (decode_loop eng (take 252 ?toks) (current_position s) True 0 ?s0)"
    using t' by simp
  have le0: "system_prompt_position ?s0 \<le> current_position ?s0" using assms(2) by simp
  have lo: "system_prompt_position s \<le> current_position t"
    and hi: "current_position t \<le> current_position s"
    using decode_loop_cp [OF le0, of eng "take 252 ?toks" "current_position s" True 0]
    by (simp_all add: t_eq [symmetric])
  have log: "length (decode_log t) = length (decode_log s) + 252"
    using decode_loop_log [OF t'] long by simp
  have cells: "length (kv_cells t) \<le> length (kv_cells s) + 252"
    using decode_loop_cells_length [of eng "take 252 ?toks" "current_position s" True 0 ?s0] long
    by (simp add: t_eq [symmetric])
  show ?thesis
    using lo hi log cells long assms(1)
    by (simp add: s' decode_tokens_in_batches_def t_eq [symmetric])
qed

theorem process_user_prompt_ffi_advances_untruncated_witness:
  "0 \<le> system_prompt_position after_system \<and>
   system_prompt_position after_system \<le> current_position after_system \<and>
   DEFAULT_CONTEXT_SIZE - OVERFLOW_HEADROOM < int (length (user_prompt_tokens byte_engine prompt_250)) \<and>
   fst (process_user_prompt_ffi byte_engine (Some prompt_250) 5 after_system) = 0 \<and>
   current_position (snd (process_user_prompt_ffi byte_engine (Some prompt_250) 5 after_system)) = 278 \<and>
   length (decode_log (snd (process_user_prompt_ffi byte_engine (Some prompt_250) 5 after_system))) =
     length (decode_log after_system) + 252"
proof -
  have ok: "fst (process_user_prompt_ffi byte_engine (Some prompt_250) 5 after_system) = 0"
    by (simp add: process_user_prompt_ffi_status decode_tokens_in_batches_always_ok)
  then have eq: "process_user_prompt_ffi byte_engine (Some prompt_250) 5 after_system =
             (0, snd (process_user_prompt_ffi byte_engine (Some prompt_250) 5 after_system))"
    by (metis prod.collapse)
  show ?thesis
    using process_user_prompt_ffi_advances_untruncated [OF _ _ _ eq] ok
    by simp
qed

section \<open>Generation\<close>

lemma utf8_assemble_frame [simp]:
  "g_model (snd (utf8_assemble piece s)) = g_model s"
  "g_context (snd (utf8_assemble piece s)) = g_context s"
  "g_sampler (snd (utf8_assemble piece s)) = g_sampler s"
  "system_prompt_position (snd (utf8_assemble piece s)) = system_prompt_position s"
  "current_position (snd (utf8_assemble piece s)) = current_position s"
  "stop_generation_position (snd (utf8_assemble piece s)) = stop_generation_position s"
  "kv_cells (snd (utf8_assemble piece s)) = kv_cells s"
  "sampler_accepted (snd (utf8_assemble piece s)) = sampler_accepted s"
  "decode_log (snd (utf8_assemble piece s)) = decode_log s"
  "free_log (snd (utf8_assemble piece s)) = free_log s"
  by (simp_all add: utf8_assemble_def Let_def)

lemma shifted_frame [simp]:
  "g_model (shifted s) = g_model s"
  "g_context (shifted s) = g_context s"
  "g_sampler (shifted s) = g_sampler s"
  "system_prompt_position (shifted s) = system_prompt_position s"
  "stop_generation_position (shifted s) = stop_generation_position s"
  "cached_token_chars (shifted s) = cached_token_chars s"
  "assistant_ss (shifted s) = assistant_ss s"
  "sampler_accepted (shifted s) = sampler_accepted s"
  "decode_log (shifted s) = decode_log s"
  "free_log (shifted s) = free_log s"
  by (simp_all add: shifted_def)

lemma shifted_cp:
  "current_position (shifted s) =
     (if 252 \<le> current_position s then current_position s - n_discard s else current_position s)"
  by (simp add: shifted_def shift_context_cp)

lemma generate_next_token_ffi_unfold:
  "generate_next_token_ffi eng s =
     (if \<not> g_context s \<or> \<not> g_sampler s then (None, s)
      else if stop_generation_position s \<le> current_position (shifted s) then (None, shifted s)
      else if fst (llama_decode eng
                    ((shifted s)\<lparr>sampler_accepted :=
                         sampler_accepted s @ [llama_sampler_sample eng (shifted s)],
                       g_batch := [(llama_sampler_sample eng (shifted s),
                                    current_position (shifted s), True)]\<rparr>)) \<noteq> 0
      then (None, snd (llama_decode eng
                    ((shifted s)\<lparr>sampler_accepted :=
                         sampler_accepted s @ [llama_sampler_sample eng (shifted s)],
                       g_batch := [(llama_sampler_sample eng (shifted s),
                                    current_position (shifted s), True)]\<rparr>)))
      else if is_eog eng (llama_sampler_sample eng (shifted s))
      then (None, (snd (llama_decode eng
                    ((shifted s)\<lparr>sampler_accepted :=
                         sampler_accepted s @ [llama_sampler_sample eng (shifted s)],
                       g_batch := [(llama_sampler_sample eng (shifted s),
                                    current_position (shifted s), True)]\<rparr>)))
                    \<lparr>current_position := current_position (shifted s) + 1\<rparr>)
      else utf8_assemble (token_to_piece eng (llama_sampler_sample eng (shifted s)))
             ((snd (llama_decode eng
                    ((shifted s)\<lparr>sampler_accepted :=
                         sampler_accepted s @ [llama_sampler_sample eng (shifted s)],
                       g_batch := [(llama_sampler_sample eng (shifted s),
                                    current_position (shifted s), True)]\<rparr>)))
                \<lparr>current_position := current_position (shifted s) + 1\<rparr>))"
proof -
  have sh: "(if current_position s \<ge> DEFAULT_CONTEXT_SIZE - OVERFLOW_HEADROOM
             then shift_context s else s) = shifted s"
    by (simp add: shifted_def)
  show ?thesis
    unfolding generate_next_token_ffi_def sh
    by (simp add: Let_def llama_sampler_accept_def case_prod_beta)
qed

lemma generate_next_token_ffi_positions:
  "system_prompt_position (snd (generate_next_token_ffi eng s)) = system_prompt_position s"
  "stop_generation_position (snd (generate_next_token_ffi eng s)) = stop_generation_position s"
  "current_position (snd (generate_next_token_ffi eng s)) = current_position s \<or>
   current_position (snd (generate_next_token_ffi eng s)) = current_position (shifted s) \<or>
   current_position (snd (generate_next_token_ffi eng s)) = current_position (shifted s) + 1"
  by (simp_all add: generate_next_token_ffi_unfold)


section \<open>The positions of an active session\<close>

lemma process_system_prompt_ffi_positions:
  assumes "process_system_prompt_ffi eng prompt s = (0, s')"
  shows "current_position s' = system_prompt_position s' \<and> 0 \<le> current_position s' \<and>
         current_position s' \<le> 252"
  using assms
  by (auto simp: process_system_prompt_ffi_def Let_def
      split: option.splits if_splits prod.splits)

lemma process_user_prompt_ffi_positions:
  assumes "system_prompt_position s \<le> current_position s"
  shows "system_prompt_position (snd (process_user_prompt_ffi eng prompt n_predict s)) =
           system_prompt_position s \<and>
         system_prompt_position s \<le>
           current_position (snd (process_user_prompt_ffi eng prompt n_predict s))"
proof (cases prompt)
  case None
  then show ?thesis using assms by (simp add: process_user_prompt_ffi_def)
next
  case (Some p)
  show ?thesis
  proof (cases "g_context s")
    case False
    then show ?thesis using assms Some by (simp add: process_user_prompt_ffi_def)
  next
    case True
    have le0: "system_prompt_position (reset_short_term_states s) \<le>
               current_position (reset_short_term_states s)"
      using assms by simp
    show ?thesis
      unfolding Some process_user_prompt_ffi_unfold [OF True] decode_tokens_in_batches_def
      using decode_loop_cp(1) [OF le0, of eng "take 252 (user_prompt_tokens eng p)"
              "current_position s" True 0]
        decode_loop_cp(1) [OF le0, of eng "user_prompt_tokens eng p" "current_position s" True 0]
      by (simp add: case_prod_beta decode_loop_frame)
  qed
qed

lemma generate_next_token_ffi_keeps_order:
  assumes "system_prompt_position s \<le> current_position s"
  shows "system_prompt_position s \<le> current_position (snd (generate_next_token_ffi eng s))"
proof -
  have "system_prompt_position s \<le> current_position (shifted s)"
    using assms n_discard_bounds(3) [OF assms] by (simp add: shifted_cp)
  then show ?thesis
    using generate_next_token_ffi_positions(3) [of eng s] assms by auto
qed

lemma generate_next_token_ffi_keeps_bound:
  assumes "system_prompt_position s + 2 \<le> 252" "system_prompt_position s \<le> current_position s"
    and "current_position s \<le> 252"
  shows "current_position (snd (generate_next_token_ffi eng s)) \<le> 252"
proof -
  have "current_position (shifted s) \<le> 251"
  proof (cases "current_position s = 252")
    case True
    then have "1 \<le> n_discard s"
      using assms(1) by (simp add: n_discard_bounds(1) [OF assms(2)])
    then show ?thesis using True by (simp add: shifted_cp)
  next
    case False
    then show ?thesis using assms(3) by (simp add: shifted_cp)
  qed
  then show ?thesis
    using generate_next_token_ffi_positions(3) [of eng s] assms(3) by auto
qed

text \<open>
  Claim C2, as the code has it. In an active session
  \<open>0 \<le> system_prompt_position \<le> current_position\<close> and
  \<open>system_prompt_position \<le> DEFAULT_CONTEXT_SIZE - OVERFLOW_HEADROOM\<close>; right after a
  system prompt processed with status 0 the two positions are equal, so
  \<open>current_position\<close> is within that bound too; and a generation step that starts
  within the bound, with a system prompt at least two short of it, ends within it.
  Nothing is said of \<open>current_position\<close> against the bound after a user prompt.
\<close>

theorem active_positions_ordered:
  "(active eng s \<longrightarrow>
      0 \<le> system_prompt_position s \<and> system_prompt_position s \<le> current_position s \<and>
      system_prompt_position s \<le> DEFAULT_CONTEXT_SIZE - OVERFLOW_HEADROOM) \<and>
   (process_system_prompt_ffi eng prompt s0 = (0, s) \<longrightarrow>
      current_position s = system_prompt_position s \<and>
      current_position s \<le> DEFAULT_CONTEXT_SIZE - OVERFLOW_HEADROOM) \<and>
   (system_prompt_position s + 2 \<le> DEFAULT_CONTEXT_SIZE - OVERFLOW_HEADROOM \<and>
    system_prompt_position s \<le> current_position s \<and>
    current_position s \<le> DEFAULT_CONTEXT_SIZE - OVERFLOW_HEADROOM \<longrightarrow>
      current_position (snd (generate_next_token_ffi eng s))
        \<le> DEFAULT_CONTEXT_SIZE - OVERFLOW_HEADROOM)"
proof (intro conjI)
  show "active eng s \<longrightarrow>
      0 \<le> system_prompt_position s \<and> system_prompt_position s \<le> current_position s \<and>
      system_prompt_position s \<le> DEFAULT_CONTEXT_SIZE - OVERFLOW_HEADROOM"
  proof
    assume "active eng s"
    then show "0 \<le> system_prompt_position s \<and> system_prompt_position s \<le> current_position s \<and>
        system_prompt_position s \<le> DEFAULT_CONTEXT_SIZE - OVERFLOW_HEADROOM"
    proof (induction rule: active.induct)
      case (active_system prompt s s')
      then show ?case using process_system_prompt_ffi_positions by fastforce
    next
      case (active_user s prompt n_predict)
      then show ?case
        using process_user_prompt_ffi_positions [of s eng prompt n_predict] by simp
    next
      case (active_generate s)
      then show ?case
        using generate_next_token_ffi_keeps_order [of s eng]
        by (simp add: generate_next_token_ffi_positions(1))
    qed
  qed
next
  show "process_system_prompt_ffi eng prompt s0 = (0, s) \<longrightarrow>
      current_position s = system_prompt_position s \<and>
      current_position s \<le> DEFAULT_CONTEXT_SIZE - OVERFLOW_HEADROOM"
    using process_system_prompt_ffi_positions [of eng prompt s0 s] by auto
next
  show "system_prompt_position s + 2 \<le> DEFAULT_CONTEXT_SIZE - OVERFLOW_HEADROOM \<and>
    system_prompt_position s \<le> current_position s \<and>
    current_position s \<le> DEFAULT_CONTEXT_SIZE - OVERFLOW_HEADROOM \<longrightarrow>
      current_position (snd (generate_next_token_ffi eng s))
        \<le> DEFAULT_CONTEXT_SIZE - OVERFLOW_HEADROOM"
    using generate_next_token_ffi_keeps_bound [of s eng] by simp
qed

lemma after_system_ok:
  "process_system_prompt_ffi byte_engine (Some ''x'') ready_session = (0, after_system)"
proof -
  have "fst (decode_tokens_in_batches byte_engine (system_prompt_tokens byte_engine ''x'') 0 False
             (reset_conversation_ffi ready_session)) = 0"
    by (rule decode_tokens_in_batches_always_ok) simp
  then have "fst (process_system_prompt_ffi byte_engine (Some ''x'') ready_session) = 0"
    by (subst process_system_prompt_ffi_unfold) (auto split: prod.splits)
  then show ?thesis
    unfolding after_system_def by (metis prod.collapse)
qed

lemma active_after_system: "active byte_engine after_system"
  using after_system_ok by (rule active_system)

theorem active_positions_ordered_witness:
  "active byte_engine after_system \<and>
   process_system_prompt_ffi byte_engine (Some ''x'') ready_session = (0, after_system) \<and>
   0 \<le> system_prompt_position after_system \<and>
   system_prompt_position after_system \<le> current_position after_system \<and>
   system_prompt_position after_system + 2 \<le> DEFAULT_CONTEXT_SIZE - OVERFLOW_HEADROOM \<and>
   current_position after_system \<le> DEFAULT_CONTEXT_SIZE - OVERFLOW_HEADROOM \<and>
   current_position (snd (generate_next_token_ffi byte_engine after_system))
     \<le> DEFAULT_CONTEXT_SIZE - OVERFLOW_HEADROOM"
  using active_positions_ordered [of byte_engine after_system "Some ''x''" ready_session]
    active_after_system after_system_ok
  by simp

lemma process_user_prompt_ffi_first_turn:
  assumes "g_context s" "current_position s = system_prompt_position s"
    "\<And>cells batch. decode_status eng cells batch = 0"
  shows "fst (process_user_prompt_ffi eng (Some prompt) n_predict s) = 0"
    and "current_position (snd (process_user_prompt_ffi eng (Some prompt) n_predict s)) =
           current_position s + int (length (user_prompt_tokens eng prompt))"
    and "stop_generation_position (snd (process_user_prompt_ffi eng (Some prompt) n_predict s)) =
           int32_wrap (current_position s + int (length (user_prompt_tokens eng prompt))
             + n_predict)"
proof -
  let ?toks = "if 252 < int (length (user_prompt_tokens eng prompt))
               then take 252 (user_prompt_tokens eng prompt) else user_prompt_tokens eng prompt"
  let ?r = "decode_tokens_in_batches eng ?toks (current_position s) True (reset_short_term_states s)"
  have ok: "fst ?r = 0" using assms(3) by (rule decode_tokens_in_batches_always_ok)
  have le0: "system_prompt_position (reset_short_term_states s) \<le>
             current_position (reset_short_term_states s)"
    using assms(2) by simp
  have "current_position (snd ?r) = current_position s"
    using decode_loop_cp [OF le0, of eng ?toks "current_position s" True 0] assms(2)
    by (simp add: decode_tokens_in_batches_def)
  then show "fst (process_user_prompt_ffi eng (Some prompt) n_predict s) = 0"
    and "current_position (snd (process_user_prompt_ffi eng (Some prompt) n_predict s)) =
           current_position s + int (length (user_prompt_tokens eng prompt))"
    and "stop_generation_position (snd (process_user_prompt_ffi eng (Some prompt) n_predict s)) =
           int32_wrap (current_position s + int (length (user_prompt_tokens eng prompt))
             + n_predict)"
    using ok unfolding process_user_prompt_ffi_unfold [OF assms(1)]
    by (simp_all add: case_prod_beta)
qed

text \<open>
  The claim as the specification has it fails: after the ten-token system prompt, a user
  prompt of 245 tokens takes \<open>current_position\<close> to 255.
\<close>

theorem active_position_over_window:
  "active byte_engine (snd (process_user_prompt_ffi byte_engine (Some prompt_227) 5 after_system)) \<and>
   current_position (snd (process_user_prompt_ffi byte_engine (Some prompt_227) 5 after_system)) = 255 \<and>
   \<not> current_position (snd (process_user_prompt_ffi byte_engine (Some prompt_227) 5 after_system))
       \<le> DEFAULT_CONTEXT_SIZE - OVERFLOW_HEADROOM"
proof -
  have "current_position (snd (process_user_prompt_ffi byte_engine (Some prompt_227) 5 after_system)) = 255"
    by (subst process_user_prompt_ffi_first_turn(2)) simp_all
  moreover have "active byte_engine
      (snd (process_user_prompt_ffi byte_engine (Some prompt_227) 5 after_system))"
    using active_after_system by (rule active_user)
  ultimately show ?thesis by simp
qed

section \<open>Positions of the batches after a shift\<close>

lemma decode_loop_ok_step:
  assumes "\<And>cells batch. decode_status eng cells batch = 0" "i < length tokens"
  shows "decode_loop eng tokens sp cll i s =
         decode_loop eng tokens sp cll (Suc i) (snd (decode_batch eng tokens sp cll i s))"
proof -
  have "fst (decode_batch eng tokens sp cll i s) = 0"
    using assms by (simp add: decode_batch_eq llama_decode_cells(3))
  then show ?thesis
    using assms(2)
    by (simp add: decode_loop.simps [of eng tokens sp cll i s] case_prod_beta BATCH_SIZE_def)
qed

lemma decode_loop_done:
  "length tokens \<le> i \<Longrightarrow> decode_loop eng tokens sp cll i s = (0, s)"
  by (simp add: decode_loop.simps)

lemma full_session_fields [simp]:
  "g_context full_session" "system_prompt_position full_session = 2"
  "current_position full_session = 250" "decode_log full_session = []"
  "kv_cells full_session = map (\<lambda>p. (int p, 7)) [0..<250]"
  by (simp_all add: full_session_def)

lemma cells_split_full_session: "cells_split 250 full_session"
  by (simp add: cells_split_def list_all_iff)

lemma full_session_driver_cp:
  "current_position (snd (decode_tokens_in_batches byte_engine [5, 6] 250 True full_session)) = 126"
proof -
  have ok: "\<And>cells batch. decode_status byte_engine cells batch = 0" by simp
  have "decode_tokens_in_batches byte_engine [5, 6] 250 True full_session =
        (0, snd (decode_batch byte_engine [5, 6] 250 True (Suc 0)
                  (snd (decode_batch byte_engine [5, 6] 250 True 0 full_session))))"
    unfolding decode_tokens_in_batches_def
    by (simp add: decode_loop_ok_step [OF ok] decode_loop_done)
  then show ?thesis
    by (simp add: decode_batch_cp decode_batch_frame n_discard_def cpp_div_def)
qed

text \<open>
  Claim C10. When the decode driver answers 0, the batch of index \<open>k\<close> was decoded at
  position \<open>start_pos + k\<close>, whatever shifts the driver made on the way. With the memory
  split below \<open>current_position\<close> and from \<open>start_pos\<close> on when the driver starts, as it
  is whenever \<open>start_pos\<close> is the \<open>current_position\<close> of a session with
  \<open>0 \<le> system_prompt_position \<le> current_position\<close>, the shifts only lower
  \<open>current_position\<close>, the tokens of the driver are resident at \<open>start_pos + k\<close> at
  the end, and no cell lies from the final \<open>current_position\<close> up to \<open>start_pos\<close>:
  after a shift that discarded something the new tokens do not continue the cells that
  moved down.
\<close>

theorem decode_tokens_in_batches_positions:
  assumes "decode_tokens_in_batches eng tokens start_pos cll s = (0, s')"
  shows "decode_log s' = decode_log s @
           map (\<lambda>k. [(tokens ! k, start_pos + int k, cll \<and> k = length tokens - 1)])
             [0..<length tokens] \<and>
         (cells_split start_pos s \<longrightarrow>
            current_position s' \<le> current_position s \<and>
            (\<forall>k<length tokens. (start_pos + int k, tokens ! k) \<in> set (kv_cells s')) \<and>
            (\<forall>c\<in>set (kv_cells s'). \<not> (current_position s' \<le> fst c \<and> fst c < start_pos)))"
proof (rule conjI; (rule impI)?)
  show "decode_log s' = decode_log s @
           map (\<lambda>k. [(tokens ! k, start_pos + int k, cll \<and> k = length tokens - 1)])
             [0..<length tokens]"
    using assms unfolding decode_tokens_in_batches_def by (rule decode_loop_log)
next
  assume split: "cells_split start_pos s"
  have loop: "decode_loop eng tokens start_pos cll 0 s = (0, s')"
    using assms by (simp add: decode_tokens_in_batches_def)
  then have s': "s' = snd (decode_loop eng tokens start_pos cll 0 s)" by simp
  have split': "cells_split start_pos s'"
    unfolding s' using split by (rule cells_split_loop)
  have "system_prompt_position s \<le> current_position s"
    using split by (simp add: cells_split_def)
  then have down: "current_position s' \<le> current_position s"
    unfolding s' by (rule decode_loop_cp(2))
  have new: "\<forall>k<length tokens. (start_pos + int k, tokens ! k) \<in> set (kv_cells s')"
    using decode_loop_new_cells [OF loop split] by simp
  have gap: "\<forall>c\<in>set (kv_cells s'). \<not> (current_position s' \<le> fst c \<and> fst c < start_pos)"
    using split' by (auto simp: cells_split_def list_all_iff)
  show "current_position s' \<le> current_position s \<and>
        (\<forall>k<length tokens. (start_pos + int k, tokens ! k) \<in> set (kv_cells s')) \<and>
        (\<forall>c\<in>set (kv_cells s'). \<not> (current_position s' \<le> fst c \<and> fst c < start_pos))"
    using down new gap by simp
qed

theorem decode_tokens_in_batches_positions_witness:
  "fst (decode_tokens_in_batches byte_engine [5, 6] 250 True full_session) = 0 \<and>
   cells_split 250 full_session \<and>
   current_position full_session = 250 \<and>
   current_position (snd (decode_tokens_in_batches byte_engine [5, 6] 250 True full_session)) = 126 \<and>
   decode_log (snd (decode_tokens_in_batches byte_engine [5, 6] 250 True full_session)) =
     [[(5, 250, False)], [(6, 251, True)]] \<and>
   (250, 5) \<in> set (kv_cells (snd (decode_tokens_in_batches byte_engine [5, 6] 250 True full_session))) \<and>
   (251, 6) \<in> set (kv_cells (snd (decode_tokens_in_batches byte_engine [5, 6] 250 True full_session))) \<and>
   list_all (\<lambda>c. fst c < 126 \<or> 250 \<le> fst c)
     (kv_cells (snd (decode_tokens_in_batches byte_engine [5, 6] 250 True full_session)))"
proof -
  have ok: "fst (decode_tokens_in_batches byte_engine [5, 6] 250 True full_session) = 0"
    by (rule decode_tokens_in_batches_always_ok) simp
  then have eq: "decode_tokens_in_batches byte_engine [5, 6] 250 True full_session =
      (0, snd (decode_tokens_in_batches byte_engine [5, 6] 250 True full_session))"
    by (metis prod.collapse)
  show ?thesis
    using decode_tokens_in_batches_positions [OF eq] ok cells_split_full_session
      full_session_driver_cp
    by (auto simp: All_less_Suc upt_conv_Cons list_all_iff)
qed

section \<open>The stop position\<close>

lemma process_user_prompt_ffi_frame:
  assumes "g_context s"
  shows "g_context (snd (process_user_prompt_ffi eng (Some prompt) n_predict s))"
    and "g_model (snd (process_user_prompt_ffi eng (Some prompt) n_predict s)) = g_model s"
    and "assistant_ss (snd (process_user_prompt_ffi eng (Some prompt) n_predict s)) = []"
    and "g_sampler (snd (process_user_prompt_ffi eng (Some prompt) n_predict s)) = g_sampler s"
    and "cached_token_chars (snd (process_user_prompt_ffi eng (Some prompt) n_predict s)) = []"
    and "sampler_accepted (snd (process_user_prompt_ffi eng (Some prompt) n_predict s)) =
           sampler_accepted s"
    and "system_prompt_position (snd (process_user_prompt_ffi eng (Some prompt) n_predict s)) =
           system_prompt_position s"
  unfolding process_user_prompt_ffi_unfold [OF assms] decode_tokens_in_batches_def
  using assms by (simp_all add: case_prod_beta decode_loop_frame)

lemma predict_3_session_fields [simp]:
  "g_context predict_3_session" "g_sampler predict_3_session" "g_model predict_3_session"
  "cached_token_chars predict_3_session = []" "sampler_accepted predict_3_session = []"
  "assistant_ss predict_3_session = []"
  "system_prompt_position predict_3_session = 10" "current_position predict_3_session = 250"
  "stop_generation_position predict_3_session = 253"
  unfolding predict_3_session_def
  by (simp_all add: process_user_prompt_ffi_frame process_user_prompt_ffi_first_turn
      int32_wrap_def)

text \<open>A step that samples, decodes and hands out the bytes of the token.\<close>

lemma generate_next_token_ffi_emits:
  assumes "g_context s" "g_sampler s" "cached_token_chars s = []"
    and "current_position (shifted s) < stop_generation_position s"
    and "\<And>cells batch. decode_status eng cells batch = 0"
    and "\<not> is_eog eng (llama_sampler_sample eng (shifted s))"
    and "is_valid_utf8 (Some (token_to_piece eng (llama_sampler_sample eng (shifted s))))"
  shows "fst (generate_next_token_ffi eng s) =
           Some (c_str (token_to_piece eng (llama_sampler_sample eng (shifted s))))"
    and "g_context (snd (generate_next_token_ffi eng s))"
    and "g_sampler (snd (generate_next_token_ffi eng s))"
    and "cached_token_chars (snd (generate_next_token_ffi eng s)) = []"
    and "current_position (snd (generate_next_token_ffi eng s)) = current_position (shifted s) + 1"
    and "sampler_accepted (snd (generate_next_token_ffi eng s)) =
           sampler_accepted s @ [llama_sampler_sample eng (shifted s)]"
  unfolding generate_next_token_ffi_unfold
  using assms by (simp_all add: llama_decode_cells(3) utf8_assemble_def Let_def)

lemma byte_engine_sample [simp]:
  "llama_sampler_sample byte_engine (shifted s) = 65 + int (length (sampler_accepted s))"
  by (simp add: llama_sampler_sample_def)

lemma ascii_valid [simp]:
  "is_valid_utf8 (Some [65])" "is_valid_utf8 (Some [66])"
  "is_valid_utf8 (Some [67])" "is_valid_utf8 (Some [68])"
  by (simp_all add: is_valid_utf8_def)

lemma ascii_c_str [simp]:
  "c_str [65] = [65]" "c_str [66] = [66]" "c_str [67] = [67]" "c_str [68] = [68]"
  by (simp_all add: c_str_def)

text \<open>
  The failing input of claim C7: after a ten-token system prompt and a 240-token user
  prompt with \<open>n_predict = 3\<close>, the stop position is three above \<open>current_position\<close>,
  and four calls in a row hand out text. The third call starts at position 252, shifts
  down to 131, and is below the stop position 253 again.
\<close>

theorem generate_next_token_ffi_exceeds_n_predict:
  "stop_generation_position predict_3_session = current_position predict_3_session + 3 \<and>
   fst (generate_calls byte_engine 4 predict_3_session) =
     [Some [65], Some [66], Some [67], Some [68]] \<and>
   current_position (snd (generate_calls byte_engine 4 predict_3_session)) = 133"
proof -
  let ?g = "generate_next_token_ffi byte_engine"
  let ?s1 = "snd (?g predict_3_session)"
  let ?s2 = "snd (?g ?s1)"
  let ?s3 = "snd (?g ?s2)"
  let ?s4 = "snd (?g ?s3)"
  have 1: "fst (?g predict_3_session) = Some [65]"
    "g_context ?s1" "g_sampler ?s1" "cached_token_chars ?s1 = []"
    "current_position ?s1 = 251" "sampler_accepted ?s1 = [65]"
    "system_prompt_position ?s1 = 10" "stop_generation_position ?s1 = 253"
    by (simp_all add: generate_next_token_ffi_emits generate_next_token_ffi_positions shifted_cp)
  have 2: "fst (?g ?s1) = Some [66]"
    "g_context ?s2" "g_sampler ?s2" "cached_token_chars ?s2 = []"
    "current_position ?s2 = 252" "sampler_accepted ?s2 = [65, 66]"
    "system_prompt_position ?s2 = 10" "stop_generation_position ?s2 = 253"
    using 1
    by (simp_all add: generate_next_token_ffi_emits generate_next_token_ffi_positions shifted_cp)
  have nd: "n_discard ?s2 = 121"
    using 2 by (simp add: n_discard_def cpp_div_def)
  have 3: "fst (?g ?s2) = Some [67]"
    "g_context ?s3" "g_sampler ?s3" "cached_token_chars ?s3 = []"
    "current_position ?s3 = 132" "sampler_accepted ?s3 = [65, 66, 67]"
    "system_prompt_position ?s3 = 10" "stop_generation_position ?s3 = 253"
    using 2 nd
    by (simp_all add: generate_next_token_ffi_emits generate_next_token_ffi_positions shifted_cp)
  have 4: "fst (?g ?s3) = Some [68]" "current_position ?s4 = 133"
    using 3
    by (simp_all add: generate_next_token_ffi_emits generate_next_token_ffi_positions shifted_cp)
  show ?thesis
    using 1 2 3 4 by (simp add: eval_nat_numeral case_prod_beta)
qed

text \<open>
  Where the stop position does hold: below the window bound no shift comes between a
  step and the stop position, every step that hands out text moves \<open>current_position\<close>
  up by one, and the steps before the first end of stream are no more than the distance
  to the stop position. After a user prompt that leaves \<open>current_position + n_predict\<close>
  below the bound, with neither negative, these are at most \<open>n_predict\<close>.
\<close>

lemma shifted_below: "current_position s < 252 \<Longrightarrow> shifted s = s"
  by (simp add: shifted_def)

lemma generate_next_token_ffi_text:
  assumes "fst (generate_next_token_ffi eng s) \<noteq> None" "current_position s < 252"
  shows "current_position (snd (generate_next_token_ffi eng s)) = current_position s + 1"
    and "current_position s < stop_generation_position s"
  using assms unfolding generate_next_token_ffi_unfold
  by (simp_all add: shifted_below split: if_splits)

lemma generate_next_token_ffi_at_stop:
  assumes "stop_generation_position s \<le> current_position s" "current_position s < 252"
  shows "fst (generate_next_token_ffi eng s) = None"
  using assms unfolding generate_next_token_ffi_unfold by (simp add: shifted_below)

lemma generate_calls_within_stop:
  assumes "current_position s \<le> stop_generation_position s" "stop_generation_position s < 252"
  shows "int (length (takeWhile (\<lambda>r. r \<noteq> None) (fst (generate_calls eng n s))))
           \<le> stop_generation_position s - current_position s"
  using assms
proof (induction n arbitrary: s)
  case 0
  then show ?case by simp
next
  case (Suc n)
  let ?s' = "snd (generate_next_token_ffi eng s)"
  have calls: "fst (generate_calls eng (Suc n) s) =
               fst (generate_next_token_ffi eng s) # fst (generate_calls eng n ?s')"
    by (simp add: case_prod_beta)
  show ?case
  proof (cases "fst (generate_next_token_ffi eng s) = None")
    case True
    then show ?thesis using Suc.prems by (simp add: calls del: generate_calls.simps)
  next
    case False
    have below: "current_position s < 252" using Suc.prems by simp
    have cp: "current_position ?s' = current_position s + 1"
      and lt: "current_position s < stop_generation_position s"
      using generate_next_token_ffi_text [OF False below] by simp_all
    have stop: "stop_generation_position ?s' = stop_generation_position s"
      by (rule generate_next_token_ffi_positions(2))
    have "int (length (takeWhile (\<lambda>r. r \<noteq> None) (fst (generate_calls eng n ?s'))))
            \<le> stop_generation_position ?s' - current_position ?s'"
      using Suc.prems lt by (intro Suc.IH) (simp_all add: cp stop)
    then show ?thesis using False by (simp add: calls cp stop del: generate_calls.simps)
  qed
qed

lemma generate_calls_within_n_predict:
  assumes "process_user_prompt_ffi eng (Some prompt) n_predict s = (0, s')"
    and "0 \<le> n_predict" "0 \<le> current_position s'" "current_position s' + n_predict < 252"
  shows "int (length (takeWhile (\<lambda>r. r \<noteq> None) (fst (generate_calls eng n s')))) \<le> n_predict"
proof -
  from assms(1) obtain t where
    "s' = t\<lparr>current_position :=
                   current_position t + int (length (user_prompt_tokens eng prompt)),
                 stop_generation_position :=
                   int32_wrap (current_position t
                     + int (length (user_prompt_tokens eng prompt)) + n_predict)\<rparr>"
    by (rule process_user_prompt_ffi_ok)
  then have "stop_generation_position s' = int32_wrap (current_position s' + n_predict)"
    by simp
  then have "stop_generation_position s' = current_position s' + n_predict"
    using assms(2,3,4) by (simp add: int32_wrap_def)
  then show ?thesis
    using generate_calls_within_stop [of s' eng n] assms(2,4) by simp
qed

section \<open>The UTF-8 assembler\<close>



lemma utf8_lead_length_0 [simp]: "utf8_lead_length 0 = 1"
  by (simp add: utf8_lead_length_def)












lemma vocabulary_engines [simp]:
  "decode_status whole_engine = (\<lambda>cells batch. 0)"
  "decode_status split_engine = (\<lambda>cells batch. 0)"
  "decode_status nul_engine = (\<lambda>cells batch. 0)"
  "is_eog whole_engine = (\<lambda>t. t = 0)"
  "is_eog split_engine = (\<lambda>t. t = 0)"
  "is_eog nul_engine = (\<lambda>t. t = 0)"
  "llama_sampler_sample whole_engine (shifted s) = 65 + int (length (sampler_accepted s))"
  "llama_sampler_sample split_engine (shifted s) = 65 + int (length (sampler_accepted s))"
  "llama_sampler_sample nul_engine (shifted s) = 65 + int (length (sampler_accepted s))"
  "token_to_piece whole_engine = (\<lambda>t. [0xC3, 0xA9])"
  "token_to_piece split_engine = (\<lambda>t. if t = 65 then [0xC3] else [0xA9])"
  "token_to_piece nul_engine = (\<lambda>t. [0x41, 0x00, 0xFF])"
  by (simp_all add: whole_engine_def split_engine_def nul_engine_def byte_engine_def
      llama_sampler_sample_def)





end
